theory Spec2Isabelle
  imports Complex_Main "HOL-Library.AList" "HOL-Library.Multiset"
begin

section \<open>JavaScript strings and numbers\<close>

text \<open>
  Strings are \<open>char list\<close>s; one \<open>char\<close> stands for one UTF-16 code unit of the
  source's strings, restricted to the code units below 256. Two characters of the
  source's literals lie outside that range and are represented by otherwise unused
  code units: the en dash (U+2013) by \<open>0x96\<close> and the typographic apostrophe (U+2019)
  by \<open>0x92\<close>. JavaScript numbers are modelled by rationals: sums, quotients and
  roundings are the exact ones.
\<close>

definition en_dash :: char where
  "en_dash = CHR 0x96"

definition right_quote :: char where
  "right_quote = CHR 0x92"

definition isWhiteSpace :: "char \<Rightarrow> bool" where
  \<comment> \<open>the characters \<open>String.prototype.trim\<close> strips and \<open>\s\<close> matches, below 256\<close>
  "isWhiteSpace c \<longleftrightarrow>
     c = CHR 0x20 \<or> c = CHR 0x09 \<or> c = CHR 0x0A \<or> c = CHR 0x0B \<or>
     c = CHR 0x0C \<or> c = CHR 0x0D \<or> c = CHR 0xA0"

definition trim :: "string \<Rightarrow> string" where
  "trim s = rev (dropWhile isWhiteSpace (rev (dropWhile isWhiteSpace s)))"

definition toLowerChar :: "char \<Rightarrow> char" where
  "toLowerChar c =
     (let n = of_char c :: nat
      in if (65 \<le> n \<and> n \<le> 90) \<or> (192 \<le> n \<and> n \<le> 222 \<and> n \<noteq> 215)
         then char_of (n + 32) else c)"

definition toLowerCase :: "string \<Rightarrow> string" where
  "toLowerCase s = map toLowerChar s"

definition toUpperChar :: "char \<Rightarrow> char" where
  \<comment> \<open>only used on the characters \<open>[a-zA-Z0-9]\<close>\<close>
  "toUpperChar c =
     (let n = of_char c :: nat
      in if 97 \<le> n \<and> n \<le> 122 then char_of (n - 32) else c)"

fun startsWith :: "string \<Rightarrow> string \<Rightarrow> bool" where
  "startsWith s [] = True"
| "startsWith [] (p # ps) = False"
| "startsWith (c # cs) (p # ps) = (c = p \<and> startsWith cs ps)"

fun includesStr :: "string \<Rightarrow> string \<Rightarrow> bool" where
  "includesStr [] p = (p = [])"
| "includesStr (c # cs) p = (startsWith (c # cs) p \<or> includesStr cs p)"

definition truthy :: "string option \<Rightarrow> bool" where
  \<comment> \<open>a string-or-undefined value in a condition: defined and not empty\<close>
  "truthy v = (case v of None \<Rightarrow> False | Some s \<Rightarrow> s \<noteq> [])"

definition nonBlank :: "string option \<Rightarrow> bool" where
  \<comment> \<open>\<open>value && value.trim().length > 0\<close>, also \<open>Boolean(value?.trim())\<close>\<close>
  "nonBlank v = (case v of None \<Rightarrow> False | Some s \<Rightarrow> trim s \<noteq> [])"

section \<open>Blueprint intake: merging list-valued fields\<close>

fun uniq :: "'a list \<Rightarrow> 'a list" where
  \<comment> \<open>\<open>Array.from(new Set(xs))\<close>: the first occurrence of each entry, in order\<close>
  "uniq [] = []"
| "uniq (x # xs) = x # uniq (filter (\<lambda>y. y \<noteq> x) xs)"

definition orEmpty :: "'a list option \<Rightarrow> 'a list" where
  \<comment> \<open>\<open>xs ?? []\<close>\<close>
  "orEmpty xs = (case xs of None \<Rightarrow> [] | Some ys \<Rightarrow> ys)"

definition mergeStringLists :: "string list option \<Rightarrow> string list option \<Rightarrow> string list option" where
  "mergeStringLists existing incoming =
     (let combined = filter (\<lambda>item. length item > 0) (map trim (orEmpty existing @ orEmpty incoming));
          unique = uniq combined
      in if length unique > 0 then Some unique else existing)"

definition normalised :: "string list \<Rightarrow> string list" where
  \<comment> \<open>the \<open>map(trim).filter(length > 0)\<close> step of \<open>mergeStringLists\<close>, for the proofs\<close>
  "normalised xs = filter (\<lambda>item. length item > 0) (map trim xs)"

section \<open>Document definitions, plans and sessions (docs/types.ts)\<close>

text \<open>
  A JavaScript object used as a dictionary (\<open>Record<string, T>\<close>) and a \<open>Map\<close> are
  association lists in insertion order: \<open>map_of\<close> reads a key, \<open>AList.update\<close> writes
  one (in place when the key is present, at the end otherwise).
\<close>

datatype AnswerSource = user | research | assumption

record RequirementSpec =
  req_id :: string
  req_label :: string
  req_description :: string
  req_weight :: "rat option"
  req_required :: bool

record QuestionSpec =
  qs_id :: string
  qs_text :: string
  qs_targets :: "string list"

record ResearchPromptSpec =
  rp_query :: string
  rp_applies_to :: "string list"

record DocumentDefinition =
  def_id :: string
  def_name :: string
  def_description :: string
  stage_hint :: "string option"
  def_template :: string
  template_markdown :: "string option"
  prerequisites :: "string option"
  required_fields :: "RequirementSpec list"
  optional_fields :: "RequirementSpec list"
  diagnostic_questions :: "QuestionSpec list"
  research_prompts :: "ResearchPromptSpec list option"

record AnswerRecord =
  fieldId :: string
  ans_value :: string
  ans_source :: AnswerSource
  ans_confidence :: rat
  timestamps :: "int list"

record Citation =
  cit_id :: string
  cit_label :: string
  cit_url :: string
  cit_note :: string
  appliesTo :: "string list"

record QuestionPlanItem =
  qp_id :: string
  qp_text :: string
  qp_targets :: "string list"
  priority :: rat

record ResearchPlanItem =
  rpi_id :: string
  rpi_query :: string
  rpi_appliesTo :: "string list"

record DocSessionState =
  active :: bool
  docType :: string
  ses_definition :: DocumentDefinition
  answers :: "(string \<times> AnswerRecord) list"
  dossier :: "(string \<times> string) list"
  pendingQuestions :: "QuestionPlanItem list"
  researchPlan :: "ResearchPlanItem list"
  citations :: "Citation list"
  confidence :: rat
  readyToGenerate :: bool
  ses_template :: string
  ses_title :: string
  processedMessageIds :: "string list"
  lastAskedQuestionId :: "string option"

section \<open>Confidence Scorer (computeConfidence)\<close>

definition weightOr :: "rat \<Rightarrow> RequirementSpec \<Rightarrow> rat" where
  \<comment> \<open>\<open>field.weight ?? d\<close>\<close>
  "weightOr d field = (case req_weight field of None \<Rightarrow> d | Some w \<Rightarrow> w)"

definition PLACEHOLDER_REGEX :: "string \<Rightarrow> bool" where
  \<comment> \<open>\<open>/(tbd|to be determined|lorem ipsum|fill me)/i.test(value)\<close>\<close>
  "PLACEHOLDER_REGEX v =
     (let l = toLowerCase v
      in includesStr l ''tbd'' \<or> includesStr l ''to be determined'' \<or>
         includesStr l ''lorem ipsum'' \<or> includesStr l ''fill me'')"

definition toFixed3 :: "rat \<Rightarrow> rat" where
  \<comment> \<open>\<open>Number(x.toFixed(3))\<close>: the nearest multiple of 1/1000, a tie away from zero\<close>
  "toFixed3 x =
     (if x < 0 then - (of_int \<lfloor>- x * 1000 + 1 / 2\<rfloor> / 1000)
      else of_int \<lfloor>x * 1000 + 1 / 2\<rfloor> / 1000)"

definition totalWeight :: "RequirementSpec list \<Rightarrow> rat" where
  "totalWeight required = foldl (\<lambda>acc field. acc + weightOr 1 field) 0 required"

definition requiredPass ::
  "(string \<times> string) list \<Rightarrow> RequirementSpec list \<Rightarrow> rat \<times> RequirementSpec list" where
  \<comment> \<open>the \<open>required.forEach\<close> loop: the pair (coveredWeight, missingRequired)\<close>
  "requiredPass dos required =
     foldl (\<lambda>(coveredWeight, missing) field.
              if nonBlank (map_of dos (req_id field))
              then (coveredWeight + weightOr 1 field, missing)
              else (coveredWeight, missing @ [field]))
           (0, []) required"

definition citationsByField :: "Citation list \<Rightarrow> (string \<times> nat) list" where
  "citationsByField cits =
     foldl (\<lambda>m citation.
              foldl (\<lambda>m' fid.
                       AList.update fid ((case map_of m' fid of None \<Rightarrow> 0 | Some n \<Rightarrow> n) + 1) m')
                    m (appliesTo citation))
           [] cits"

definition evidenceOf ::
  "RequirementSpec list \<Rightarrow> (string \<times> string) list \<Rightarrow> Citation list \<Rightarrow> rat" where
  "evidenceOf flds dos cits =
     (let evidenceDenominator = length (filter (\<lambda>field. truthy (map_of dos (req_id field))) flds)
      in if evidenceDenominator \<noteq> 0
         then foldl (\<lambda>acc field.
                       if \<not> truthy (map_of dos (req_id field)) then acc
                       else acc + (if map_of (citationsByField cits) (req_id field) \<noteq> None
                                   then 1 else 0))
                    0 flds / of_nat evidenceDenominator
         else 0)"

definition clarityOf :: "(string \<times> string) list \<Rightarrow> rat" where
  "clarityOf dos =
     (let clarityDenominator = (if length dos = 0 then 1 else length dos);
          unclearCount = foldl (\<lambda>acc v. if v = [] then acc + 1
                                          else if PLACEHOLDER_REGEX v then acc + 1 else acc)
                               (0::nat) (map snd dos)
      in 1 - of_nat unclearCount / of_nat clarityDenominator)"

record ConfidenceReport =
  completeness :: rat
  evidence :: rat
  clarity :: rat
  overall :: rat
  missingRequired :: "RequirementSpec list"

definition computeConfidence ::
  "DocumentDefinition \<Rightarrow> (string \<times> string) list \<Rightarrow> Citation list \<Rightarrow> ConfidenceReport" where
  "computeConfidence defn dos cits =
     (let required = required_fields defn;
          optional = optional_fields defn;
          tw = totalWeight required;
          c = (if tw = 0 then 0 else fst (requiredPass dos required) / tw);
          e = evidenceOf (required @ optional) dos cits;
          cl = clarityOf dos
      in \<lparr> completeness = c, evidence = e, clarity = cl,
           overall = toFixed3 (1 / 2 * c + 3 / 10 * e + 1 / 5 * cl),
           missingRequired = snd (requiredPass dos required) \<rparr>)"

section \<open>Catalog and Question Planner (docs/catalog.ts)\<close>

record RawRequirement =
  raw_id :: string
  raw_label :: string
  raw_description :: string
  raw_weight :: "rat option"

record RawDocumentDefinition =
  rd_id :: string
  rd_name :: string
  rd_description :: string
  rd_stage_hint :: "string option"
  rd_template :: string
  rd_pre_requisites_documents :: "string option"
  rd_document_template :: "string option"
  rd_required_fields :: "RawRequirement list"
  rd_optional_fields :: "RawRequirement list option"
  rd_diagnostic_questions :: "QuestionSpec list option"
  rd_research_prompts :: "ResearchPromptSpec list option"

record DocCatalogRaw =
  doc_types :: "RawDocumentDefinition list option"

datatype CatalogError =
    ReadFailed
  | ParseFailed
  | MissingDocTypes
  | UnknownDocType string "string list"

text \<open>
  The raw records follow the declared types of the source; \<open>optional_fields\<close>,
  \<open>diagnostic_questions\<close> and \<open>research_prompts\<close> may be absent, \<open>required_fields\<close> is
  taken to be present, as declared.
  What \<open>readFile\<close> followed by \<open>YAML.parse\<close> hands to the loader: either of the two calls
  throws, or the parse gives a value, \<open>None\<close> for \<open>null\<close>; \<open>doc_types\<close> is \<open>None\<close> when the
  key is absent or not an array.
\<close>

type_synonym CatalogSource = "CatalogError + DocCatalogRaw option"

type_synonym Catalog = "(string \<times> DocumentDefinition) list"

definition normalizeRequirement :: "RawRequirement \<Rightarrow> bool \<Rightarrow> RequirementSpec" where
  "normalizeRequirement input required =
     \<lparr> req_id = raw_id input, req_label = raw_label input,
       req_description = raw_description input,
       req_weight = Some (case raw_weight input of None \<Rightarrow> 1 | Some w \<Rightarrow> w),
       req_required = required \<rparr>"

definition normalizeQuestion :: "QuestionSpec \<Rightarrow> QuestionSpec" where
  "normalizeQuestion input =
     \<lparr> qs_id = qs_id input, qs_text = qs_text input, qs_targets = qs_targets input \<rparr>"

definition normalizeDocument :: "RawDocumentDefinition \<Rightarrow> string \<times> DocumentDefinition" where
  \<comment> \<open>the body of \<open>parsed.doc_types.map\<close>\<close>
  "normalizeDocument doc =
     (let required = map (\<lambda>field. normalizeRequirement field True) (rd_required_fields doc);
          optional = (case rd_optional_fields doc of None \<Rightarrow> []
                      | Some fs \<Rightarrow> map (\<lambda>field. normalizeRequirement field False) fs);
          questions = (case rd_diagnostic_questions doc of None \<Rightarrow> []
                       | Some qs \<Rightarrow> map normalizeQuestion qs);
          defn = \<lparr> def_id = rd_id doc, def_name = rd_name doc,
                   def_description = rd_description doc, stage_hint = rd_stage_hint doc,
                   def_template = rd_template doc,
                   template_markdown = rd_document_template doc,
                   prerequisites = rd_pre_requisites_documents doc,
                   required_fields = required, optional_fields = optional,
                   diagnostic_questions = questions,
                   research_prompts = rd_research_prompts doc \<rparr>
      in (def_id defn, defn))"

definition newMap :: "('k \<times> 'v) list \<Rightarrow> ('k \<times> 'v) list" where
  \<comment> \<open>\<open>new Map(entries)\<close>\<close>
  "newMap entries = foldl (\<lambda>m (k, v). AList.update k v m) [] entries"

definition loadDocumentCatalog ::
  "Catalog option \<Rightarrow> CatalogSource \<Rightarrow> (CatalogError + Catalog) \<times> Catalog option" where
  \<comment> \<open>first argument and second result: the module variable \<open>cachedCatalog\<close>\<close>
  "loadDocumentCatalog cachedCatalog src =
     (case cachedCatalog of
        Some c \<Rightarrow> (Inr c, cachedCatalog)
      | None \<Rightarrow>
          (case src of
             Inl e \<Rightarrow> (Inl e, None)
           | Inr None \<Rightarrow> (Inl MissingDocTypes, None)
           | Inr (Some parsed) \<Rightarrow>
               (case doc_types parsed of
                  None \<Rightarrow> (Inl MissingDocTypes, None)
                | Some docs \<Rightarrow>
                    (let c = newMap (map normalizeDocument docs)
                     in (Inr c, Some c)))))"

definition getDocumentDefinition ::
  "Catalog option \<Rightarrow> CatalogSource \<Rightarrow> string \<Rightarrow> (CatalogError + DocumentDefinition) \<times> Catalog option" where
  "getDocumentDefinition cachedCatalog src dt =
     (case loadDocumentCatalog cachedCatalog src of
        (Inl e, cache) \<Rightarrow> (Inl e, cache)
      | (Inr c, cache) \<Rightarrow>
          (case map_of c dt of
             None \<Rightarrow> (Inl (UnknownDocType dt (map fst c)), cache)
           | Some d \<Rightarrow> (Inr d, cache)))"

definition coverageWeights :: "DocumentDefinition \<Rightarrow> (string \<times> rat) list" where
  "coverageWeights defn =
     foldl (\<lambda>m field. AList.update (req_id field) (weightOr (1 / 2) field) m)
       (foldl (\<lambda>m field. AList.update (req_id field) (weightOr 1 field) m) []
          (required_fields defn))
       (optional_fields defn)"

definition questionPriority :: "(string \<times> rat) list \<Rightarrow> string list \<Rightarrow> rat" where
  \<comment> \<open>\<open>question.targets.reduce(...)\<close>\<close>
  "questionPriority cw targets =
     foldl (\<lambda>acc fid. acc + (case map_of cw fid of None \<Rightarrow> 1 / 2 | Some w \<Rightarrow> w)) 0 targets"

definition materializeQuestionPlan :: "DocumentDefinition \<Rightarrow> QuestionPlanItem list" where
  "materializeQuestionPlan defn =
     map (\<lambda>(index, question).
            \<lparr> qp_id = qs_id question, qp_text = qs_text question,
              qp_targets = qs_targets question,
              priority = questionPriority (coverageWeights defn) (qs_targets question)
                         + 1 / (of_nat index + 1) \<rparr>)
         (enumerate 0 (diagnostic_questions defn))"


definition declaredIds :: "DocumentDefinition \<Rightarrow> string list" where
  "declaredIds defn = map req_id (required_fields defn @ optional_fields defn)"

section \<open>Messages\<close>

datatype MessageType = human | ai | system | tool

record BaseMessage =
  msg_type :: MessageType
  msg_id :: "string option"
  kwargs_id :: "string option"
  additional_kwargs_id :: "string option"
  msg_content :: string

text \<open>
  \<open>msg_content\<close> is the text \<open>getStringFromContent\<close> gives for the message (that helper is
  not part of these sources).
\<close>

definition getLatestHumanMessage :: "BaseMessage list \<Rightarrow> BaseMessage option" where
  "getLatestHumanMessage messages = find (\<lambda>message. msg_type message = human) (rev messages)"

definition typeName :: "MessageType \<Rightarrow> string" where
  "typeName t = (case t of human \<Rightarrow> ''human'' | ai \<Rightarrow> ''ai'' | system \<Rightarrow> ''system'' | tool \<Rightarrow> ''tool'')"

fun showNat :: "nat \<Rightarrow> string" where
  "showNat n = (if n < 10 then [char_of (48 + n)] else showNat (n div 10) @ [char_of (48 + n mod 10)])"

definition showInt :: "int \<Rightarrow> string" where
  "showInt i = (if i < 0 then ''-'' @ showNat (nat (- i)) else showNat (nat i))"

definition mathRound :: "rat \<Rightarrow> int" where
  \<comment> \<open>\<open>Math.round\<close>: a tie goes up\<close>
  "mathRound x = \<lfloor>x + 1 / 2\<rfloor>"

fun insertBy :: "('a \<Rightarrow> 'a \<Rightarrow> bool) \<Rightarrow> 'a \<Rightarrow> 'a list \<Rightarrow> 'a list" where
  "insertBy le x [] = [x]"
| "insertBy le x (y # ys) = (if le x y then x # y # ys else y # insertBy le x ys)"

definition sortBy :: "('a \<Rightarrow> 'a \<Rightarrow> bool) \<Rightarrow> 'a list \<Rightarrow> 'a list" where
  \<comment> \<open>\<open>Array.prototype.sort\<close> (stable); \<open>le a b\<close> says that the comparator's result on
      \<open>(a, b)\<close> is not positive\<close>
  "sortBy le xs = foldr (insertBy le) xs []"

definition byPriorityDesc :: "QuestionPlanItem \<Rightarrow> QuestionPlanItem \<Rightarrow> bool" where
  \<comment> \<open>the comparator \<open>(a, b) => b.priority - a.priority\<close>\<close>
  "byPriorityDesc a b \<longleftrightarrow> priority b - priority a \<le> 0"

section \<open>Generic document session (generate-artifact/docs-session.ts)\<close>

record ExtractedAnswer =
  ea_fieldId :: string
  ea_value :: string
  ea_confidence :: rat

record ExtractionResponse =
  ex_answers :: "ExtractedAnswer list"
  ex_title :: "string option"

definition DOC_KEYWORDS :: "(string \<times> string list) list" where
  "DOC_KEYWORDS =
     [(''tech_design'', [''technical design'', ''tech design'', ''design document'',
                         ''system design'', ''architecture design'']),
      (''prd'', [''product requirements'', ''product requirement'', ''prd'',
                 ''requirements document'']),
      (''adr'', [''architecture decision'', ''adr'', ''decision record''])]"

definition detectDocTypeFromMessage :: "string option \<Rightarrow> string option" where
  "detectDocTypeFromMessage content =
     (case content of
        None \<Rightarrow> None
      | Some c \<Rightarrow>
          if c = [] then None
          else let normalized = toLowerCase c
               in (case find (\<lambda>keyword. list_ex (\<lambda>phrase. includesStr normalized phrase)
                                                (snd keyword))
                             DOC_KEYWORDS of
                     Some keyword \<Rightarrow> Some (fst keyword)
                   | None \<Rightarrow> if includesStr normalized ''document'' then Some ''prd'' else None))"

definition createSession ::
  "Catalog option \<Rightarrow> CatalogSource \<Rightarrow> string \<Rightarrow> (CatalogError + DocSessionState) \<times> Catalog option" where
  "createSession cachedCatalog src dt =
     (case getDocumentDefinition cachedCatalog src dt of
        (Inl e, cache) \<Rightarrow> (Inl e, cache)
      | (Inr defn, cache) \<Rightarrow>
          (Inr \<lparr> active = True, docType = def_id defn, ses_definition = defn,
                 answers = [], dossier = [],
                 pendingQuestions = sortBy byPriorityDesc (materializeQuestionPlan defn),
                 researchPlan = [], citations = [], confidence = 0,
                 readyToGenerate = False, ses_template = def_template defn,
                 ses_title = def_name defn @ '' Draft'',
                 processedMessageIds = [], lastAskedQuestionId = None \<rparr>, cache))"

definition getMessageId :: "BaseMessage \<Rightarrow> nat \<Rightarrow> string" where
  "getMessageId message fallbackIndex =
     (case msg_id message of
        Some i \<Rightarrow> i
      | None \<Rightarrow> typeName (msg_type message) @ ''-'' @ showNat fallbackIndex)"

definition applyAnswer ::
  "DocSessionState \<Rightarrow> (nat \<Rightarrow> int) \<Rightarrow>
   (string \<times> AnswerRecord) list \<times> (string \<times> string) list \<Rightarrow> nat \<times> ExtractedAnswer \<Rightarrow>
   (string \<times> AnswerRecord) list \<times> (string \<times> string) list" where
  \<comment> \<open>one round of the loop over \<open>response.answers\<close>; \<open>dateNow k\<close> is the clock reading
      \<open>Date.now()\<close> in round \<open>k\<close>\<close>
  "applyAnswer session dateNow acc ka =
     (case acc of (updatedAnswers, updatedDossier) \<Rightarrow>
      case ka of (k, answer) \<Rightarrow>
        if trim (ea_value answer) = [] then (updatedAnswers, updatedDossier)
        else
          (AList.update (ea_fieldId answer)
             \<lparr> fieldId = ea_fieldId answer, ans_value = trim (ea_value answer),
               ans_source = user, ans_confidence = ea_confidence answer,
               timestamps =
                 (case map_of (answers session) (ea_fieldId answer) of
                    None \<Rightarrow> [] | Some r \<Rightarrow> timestamps r) @ [dateNow k] \<rparr>
             updatedAnswers,
           AList.update (ea_fieldId answer) (trim (ea_value answer)) updatedDossier))"

definition updateSessionFromMessage ::
  "ExtractionResponse option \<Rightarrow> (nat \<Rightarrow> int) \<Rightarrow> DocSessionState \<Rightarrow> BaseMessage \<Rightarrow> nat \<Rightarrow>
   DocSessionState" where
  \<comment> \<open>\<open>response\<close> is what the structured-output model call returns, \<open>None\<close> when it throws\<close>
  "updateSessionFromMessage response dateNow session message messageIndex =
     (let messageId = getMessageId message messageIndex
      in if messageId \<in> set (processedMessageIds session) then session
         else
           let merged = (case response of
                           None \<Rightarrow> (answers session, dossier session)
                         | Some r \<Rightarrow>
                             foldl (applyAnswer session dateNow)
                                   (answers session, dossier session)
                                   (enumerate 0 (ex_answers r)));
               title = (case response of
                          None \<Rightarrow> ses_title session
                        | Some r \<Rightarrow>
                            (case ex_title r of
                               None \<Rightarrow> ses_title session
                             | Some t \<Rightarrow> if t \<noteq> [] then t else ses_title session));
               filteredQuestions =
                 filter (\<lambda>question.
                           \<not> list_all (\<lambda>target. nonBlank (map_of (snd merged) target))
                                       (qp_targets question))
                        (pendingQuestions session)
           in session\<lparr> answers := fst merged, dossier := snd merged,
                       pendingQuestions := sortBy byPriorityDesc filteredQuestions,
                       processedMessageIds := processedMessageIds session @ [messageId],
                       ses_title := title, lastAskedQuestionId := None \<rparr>)"

definition progressSummary :: "DocSessionState \<Rightarrow> string" where
  "progressSummary session =
     (let requiredIds = map req_id (required_fields (ses_definition session));
          filled = length (filter (\<lambda>i. nonBlank (map_of (dossier session) i)) requiredIds);
          total = (if length requiredIds = 0 then 1 else length requiredIds)
      in showNat filled @ ''/'' @ showNat total @ '' required fields captured'')"

definition formatQuestionMessage :: "DocSessionState \<Rightarrow> QuestionPlanItem \<Rightarrow> string" where
  "formatQuestionMessage session question =
     (let report = computeConfidence (ses_definition session) (dossier session) (citations session);
          missing =
            (case missingRequired report of
               [] \<Rightarrow> []
             | f # fs \<Rightarrow> (''- '' @ req_label f)
                          @ concat (map (\<lambda>field. [CHR 0x0A] @ ''- '' @ req_label field) fs));
          reminder = (if missing \<noteq> []
                      then ''Remaining critical items:'' @ [CHR 0x0A] @ missing @ [CHR 0x0A]
                      else [])
      in ''Progress: '' @ progressSummary session @ ''. Confidence ''
         @ showInt (mathRound (overall report * 100)) @ ''%'' @ [CHR 0x0A]
         @ reminder @ qp_text question)"

record ArtifactV3 =
  art_title :: string
  fullMarkdown :: string

record DocSessionOutcome =
  out_docsState :: "DocSessionState option"
  out_messages :: "string list"
  out_artifact :: "ArtifactV3 option"
  skipFollowup :: "bool option"

record DocsEnv =
  env_cache :: "Catalog option"
  env_source :: CatalogSource
  env_response :: "ExtractionResponse option"
  env_dateNow :: "nat \<Rightarrow> int"
  env_render :: "string \<Rightarrow> DocSessionState \<Rightarrow> Citation list \<Rightarrow> string"

text \<open>
  The surroundings of \<open>maybeHandleDocSession\<close>: the catalog cache and the catalog file,
  the extraction model's answer for the latest message, the clock, and the template
  renderer \<open>renderDocumentTemplate\<close>.
\<close>

definition latestHumanIndex :: "BaseMessage list \<Rightarrow> nat" where
  \<comment> \<open>\<open>messages.findIndex((msg) => msg === latestHuman)\<close>: the place of the last human
      message (message objects are distinct)\<close>
  "latestHumanIndex messages =
     length messages - 1 - length (takeWhile (\<lambda>m. msg_type m \<noteq> human) (rev messages))"

definition scoreSession :: "DocSessionState \<Rightarrow> DocSessionState" where
  \<comment> \<open>lines 309 to 319 of \<open>maybeHandleDocSession\<close>\<close>
  "scoreSession session =
     (let confidenceReport =
            computeConfidence (ses_definition session) (dossier session) (citations session);
          ready = (overall confidenceReport \<ge> 3 / 4 \<and> length (missingRequired confidenceReport) = 0)
      in session\<lparr> confidence := overall confidenceReport, readyToGenerate := ready \<rparr>)"

definition respondForSession :: "DocsEnv \<Rightarrow> DocSessionState \<Rightarrow> DocSessionOutcome" where
  \<comment> \<open>lines 321 to 352 of \<open>maybeHandleDocSession\<close>\<close>
  "respondForSession env session =
     (if \<not> readyToGenerate session then
        (case pendingQuestions session of
           [] \<Rightarrow> \<lparr> out_docsState = Some session, out_messages = [], out_artifact = None,
                   skipFollowup = Some True \<rparr>
         | nextQuestion # _ \<Rightarrow>
             if lastAskedQuestionId session = Some (qp_id nextQuestion)
             then \<lparr> out_docsState = Some session, out_messages = [], out_artifact = None,
                    skipFollowup = Some True \<rparr>
             else \<lparr> out_docsState = Some (session\<lparr> lastAskedQuestionId := Some (qp_id nextQuestion) \<rparr>),
                    out_messages = [formatQuestionMessage session nextQuestion],
                    out_artifact = None, skipFollowup = Some True \<rparr>)
      else
        \<lparr> out_docsState = None, out_messages = [],
          out_artifact = Some \<lparr> art_title = ses_title session,
                                 fullMarkdown = env_render env (ses_template session) session
                                                  (citations session) \<rparr>,
          skipFollowup = None \<rparr>)"

definition maybeHandleDocSession ::
  "DocsEnv \<Rightarrow> DocSessionState option \<Rightarrow> BaseMessage list \<Rightarrow>
   CatalogError + DocSessionOutcome option" where
  "maybeHandleDocSession env docsState messages =
     (let latestHuman = getLatestHumanMessage messages;
          latestContent = map_option msg_content latestHuman;
          docTypeFromMessage = detectDocTypeFromMessage latestContent;
          created =
            (case docsState of
               Some s \<Rightarrow> Inr (Some s)
             | None \<Rightarrow>
                 (case docTypeFromMessage of
                    None \<Rightarrow> Inr None
                  | Some dt \<Rightarrow>
                      (case fst (createSession (env_cache env) (env_source env) dt) of
                         Inl e \<Rightarrow> Inl e
                       | Inr s \<Rightarrow> Inr (Some s))))
      in case created of
           Inl e \<Rightarrow> Inl e
         | Inr None \<Rightarrow> Inr None
         | Inr (Some session) \<Rightarrow>
             (let updated =
                    (case latestHuman of
                       None \<Rightarrow> session
                     | Some m \<Rightarrow>
                         updateSessionFromMessage (env_response env) (env_dateNow env)
                           session m (latestHumanIndex messages))
              in Inr (Some (respondForSession env (scoreSession updated)))))"

section \<open>Conversational document session (reply-to-general-input)\<close>

definition READY_PATTERNS :: "(string \<Rightarrow> bool) list" where
  \<comment> \<open>the four case-insensitive patterns, each as a test on the text\<close>
  "READY_PATTERNS =
     [\<lambda>t. let l = toLowerCase t
           in includesStr l ''ready to start'' \<or> includesStr l ''ready to generate''
              \<or> includesStr l ''ready to draft'',
      \<lambda>t. let l = toLowerCase t
           in includesStr l ''go ahead and start'' \<or> includesStr l ''go ahead and generate''
              \<or> includesStr l ''go ahead and draft'',
      \<lambda>t. let l = toLowerCase t
           in includesStr l ''generate the doc'' \<or> includesStr l ''generate the document''
              \<or> includesStr l ''generate the draft'' \<or> includesStr l ''generate doc''
              \<or> includesStr l ''generate document'' \<or> includesStr l ''generate draft'',
      \<lambda>t. let l = toLowerCase t
           in includesStr l (''we'' @ [CHR 0x27] @ ''re ready'')
              \<or> includesStr l (''we'' @ [right_quote] @ ''re ready'')
              \<or> includesStr l ''were ready'']"

datatype JsonValue = JString string | JOther string

text \<open>
  A parsed JSON value: a string, or any other value, given by the text
  \<open>JSON.stringify(value, null, 2)\<close> prints for it.
\<close>

record ProjectUserDetails =
  pud_project :: "JsonValue option"
  pud_user :: "JsonValue option"

definition toPrettyString :: "JsonValue \<Rightarrow> string" where
  "toPrettyString v =
     (case v of JString s \<Rightarrow> (if trim s \<noteq> [] then trim s else s) | JOther t \<Rightarrow> t)"

definition getDeterministicMessageId :: "BaseMessage \<Rightarrow> string option" where
  "getDeterministicMessageId message =
     (if nonBlank (msg_id message) then msg_id message
      else if nonBlank (kwargs_id message) then kwargs_id message
      else if nonBlank (additional_kwargs_id message) then additional_kwargs_id message
      else if trim (msg_content message) \<noteq> []
      then (let t = trim (msg_content message);
                suffix = drop (length t - 64) t
            in Some (''content:'' @ suffix))
      else None)"

definition mergeProjectUserDetails ::
  "DocSessionState \<Rightarrow> ProjectUserDetails option \<Rightarrow> DocSessionState" where
  "mergeProjectUserDetails session details =
     (case details of
        None \<Rightarrow> session
      | Some d \<Rightarrow>
          (let upProject = map_option toPrettyString (pud_project d);
               upUser = map_option toPrettyString (pud_user d)
           in if upProject = None \<and> upUser = None then session
              else
                let currentProject = map_of (dossier session) ''project_details'';
                    currentUser = map_of (dossier session) ''user_details'';
                    projectUnchanged = (upProject = None \<or> upProject = currentProject);
                    userUnchanged = (upUser = None \<or> upUser = currentUser)
                in if projectUnchanged \<and> userUnchanged then session
                   else
                     let d1 = (case upProject of None \<Rightarrow> dossier session
                               | Some v \<Rightarrow> AList.update ''project_details'' v (dossier session));
                         d2 = (case upUser of None \<Rightarrow> d1
                               | Some v \<Rightarrow> AList.update ''user_details'' v d1)
                     in session\<lparr> dossier := d2 \<rparr>))"

definition detectReadyIntent :: "string \<Rightarrow> bool" where
  "detectReadyIntent text =
     (if trim text = [] then False else list_ex (\<lambda>pattern. pattern text) READY_PATTERNS)"

definition calculateCoverageConfidence ::
  "DocumentDefinition \<Rightarrow> (string \<times> AnswerRecord) list \<Rightarrow> int" where
  "calculateCoverageConfidence defn ans =
     (let requiredIds = map req_id (required_fields defn)
      in if length requiredIds = 0 then 0
         else
           let answeredCount =
                 length (filter (\<lambda>fid. nonBlank (map_option ans_value (map_of ans fid)))
                                requiredIds)
           in mathRound (of_nat answeredCount / of_nat (length requiredIds) * 100))"

definition findNextQuestion :: "DocSessionState \<Rightarrow> QuestionPlanItem option" where
  "findNextQuestion session =
     (case pendingQuestions session of [] \<Rightarrow> None | q # _ \<Rightarrow> Some q)"

definition recordTarget ::
  "string \<Rightarrow> int \<Rightarrow> (string \<times> AnswerRecord) list \<Rightarrow> string \<Rightarrow> (string \<times> AnswerRecord) list" where
  \<comment> \<open>one round of \<open>targetQuestion.targets.forEach\<close>\<close>
  "recordTarget trimmedContent timestamp updatedAnswers targetId =
     (if targetId = [] then updatedAnswers
      else
        AList.update targetId
          \<lparr> fieldId = targetId, ans_value = trimmedContent, ans_source = user,
            ans_confidence = 7 / 10,
            timestamps =
              (case map_of updatedAnswers targetId of None \<Rightarrow> [] | Some r \<Rightarrow> timestamps r)
              @ [timestamp] \<rparr>
          updatedAnswers)"

definition answerAskedQuestion ::
  "int \<Rightarrow> string \<Rightarrow> bool \<Rightarrow> DocSessionState \<Rightarrow> DocSessionState" where
  \<comment> \<open>the block \<open>if (updatedSession.lastAskedQuestionId) { ... }\<close>; \<open>timestamp\<close> is the
      clock reading \<open>Date.now()\<close>\<close>
  "answerAskedQuestion timestamp trimmedContent readyIntent updatedSession =
     (if \<not> truthy (lastAskedQuestionId updatedSession) then updatedSession
      else
        (case find (\<lambda>question. Some (qp_id question) = lastAskedQuestionId updatedSession)
                   (pendingQuestions updatedSession) of
           None \<Rightarrow> updatedSession\<lparr> lastAskedQuestionId := None \<rparr>
         | Some targetQuestion \<Rightarrow>
             if readyIntent then updatedSession\<lparr> lastAskedQuestionId := None \<rparr>
             else
               let updatedAnswers =
                     foldl (recordTarget trimmedContent timestamp) (answers updatedSession)
                           (qp_targets targetQuestion);
                   remainingQuestions =
                     filter (\<lambda>question. qp_id question \<noteq> qp_id targetQuestion)
                            (pendingQuestions updatedSession);
                   conf = calculateCoverageConfidence (ses_definition updatedSession)
                            updatedAnswers;
                   ready = (conf \<ge> 75 \<or> length remainingQuestions = 0)
               in updatedSession\<lparr> answers := updatedAnswers,
                                    pendingQuestions := remainingQuestions,
                                    confidence := of_int conf,
                                    readyToGenerate := ready,
                                    lastAskedQuestionId := None \<rparr>))"

definition processDocSessionMessages ::
  "(string \<Rightarrow> ProjectUserDetails option) \<Rightarrow> int \<Rightarrow> DocSessionState \<Rightarrow> BaseMessage list \<Rightarrow>
   DocSessionState" where
  \<comment> \<open>first argument: \<open>extractProjectUserDetails\<close> (it goes through \<open>JSON.parse\<close>); second:
      the clock reading \<open>Date.now()\<close>\<close>
  "processDocSessionMessages extractProjectUserDetails timestamp session messages =
     (case getLatestHumanMessage messages of
        None \<Rightarrow> session
      | Some latestHuman \<Rightarrow>
          (let messageId = getDeterministicMessageId latestHuman
           in if (case messageId of
                    None \<Rightarrow> False
                  | Some i \<Rightarrow> i \<noteq> [] \<and> i \<in> set (processedMessageIds session))
              then session
              else
                let ids = (case messageId of
                             None \<Rightarrow> processedMessageIds session
                           | Some i \<Rightarrow> if i \<noteq> [] then processedMessageIds session @ [i]
                                       else processedMessageIds session);
                    trimmedContent = trim (msg_content latestHuman);
                    updatedSession = session\<lparr> processedMessageIds := ids \<rparr>
                in if trimmedContent = [] then updatedSession
                   else
                     let merged = mergeProjectUserDetails updatedSession
                                    (extractProjectUserDetails trimmedContent);
                         readyIntent = detectReadyIntent trimmedContent;
                         answered = answerAskedQuestion timestamp trimmedContent readyIntent merged
                     in if \<not> readyToGenerate answered \<and> readyIntent
                        then answered\<lparr> readyToGenerate := True \<rparr>
                        else answered))"

definition replyToGeneralInput ::
  "(string \<Rightarrow> ProjectUserDetails option) \<Rightarrow> int \<Rightarrow> DocSessionState option \<Rightarrow> BaseMessage list \<Rightarrow>
   DocSessionState option" where
  \<comment> \<open>the \<open>docsState\<close> the node returns (\<open>None\<close>: the node leaves it as it is); the model's
      reply itself is not modelled\<close>
  "replyToGeneralInput extractProjectUserDetails timestamp docsState messages =
     (case docsState of
        None \<Rightarrow> None
      | Some s \<Rightarrow>
          if \<not> active s then None
          else
            let updatedSession =
                  processDocSessionMessages extractProjectUserDetails timestamp s messages;
                nextQuestion = (if readyToGenerate updatedSession then None
                                else findNextQuestion updatedSession)
            in Some (updatedSession\<lparr> lastAskedQuestionId := map_option qp_id nextQuestion \<rparr>))"

section \<open>Clarification blueprint (concept-note/user-intake.ts)\<close>

record OutputPreferences =
  op_format :: "string option"
  op_length :: "string option"
  op_includeVisuals :: "bool option"

record UserInputs =
  title :: "string option"
  description :: "string option"
  targetAudience :: "string option"
  budget :: "string option"
  timeline :: "string option"
  scope :: "string option"
  requirements :: "string list option"
  objectives :: "string list option"
  keyActivities :: "string list option"
  keyChallenges :: "string list option"
  successMetrics :: "string list option"
  keyPartners :: "string list option"
  outputPreferences :: "OutputPreferences option"

datatype InputField =
    F_title | F_description | F_targetAudience | F_budget | F_timeline | F_scope
  | F_requirements | F_objectives | F_keyActivities | F_keyChallenges
  | F_successMetrics | F_keyPartners | F_outputPreferences
  | F_problem_context | F_constraints | F_dependencies

datatype QuestionStatus = pending | answered | assumed

record ClarifyingQuestion =
  cq_id :: string
  cq_field :: InputField
  cq_question :: string
  cq_rationale :: string
  cq_required :: bool
  cq_status :: QuestionStatus
  timesAsked :: nat
  lastAskedAt :: string
  cq_assumptionSuggestion :: "string option"

record ClarityBlueprintEntry =
  bp_field :: InputField
  bp_question :: string
  bp_rationale :: string
  bp_required :: bool
  bp_assumptionSuggestion :: "string option"
  bp_priority :: nat
  followUpNeeded :: "UserInputs \<Rightarrow> bool"

definition MAX_QUESTIONS_PER_PROMPT :: nat where
  "MAX_QUESTIONS_PER_PROMPT = 4"

definition MIN_DESCRIPTION_LENGTH :: nat where
  "MIN_DESCRIPTION_LENGTH = 80"

definition MAX_SAFE_INTEGER :: nat where
  "MAX_SAFE_INTEGER = 9007199254740991"

definition fieldName :: "InputField \<Rightarrow> string" where
  "fieldName f =
     (case f of
        F_title \<Rightarrow> ''title'' | F_description \<Rightarrow> ''description''
      | F_targetAudience \<Rightarrow> ''targetAudience'' | F_budget \<Rightarrow> ''budget''
      | F_timeline \<Rightarrow> ''timeline'' | F_scope \<Rightarrow> ''scope''
      | F_requirements \<Rightarrow> ''requirements'' | F_objectives \<Rightarrow> ''objectives''
      | F_keyActivities \<Rightarrow> ''keyActivities'' | F_keyChallenges \<Rightarrow> ''keyChallenges''
      | F_successMetrics \<Rightarrow> ''successMetrics'' | F_keyPartners \<Rightarrow> ''keyPartners''
      | F_outputPreferences \<Rightarrow> ''outputPreferences''
      | F_problem_context \<Rightarrow> ''problem_context'' | F_constraints \<Rightarrow> ''constraints''
      | F_dependencies \<Rightarrow> ''dependencies'')"

definition emptyList :: "string list option \<Rightarrow> bool" where
  \<comment> \<open>\<open>!xs || xs.length === 0\<close>\<close>
  "emptyList xs = (case xs of None \<Rightarrow> True | Some ys \<Rightarrow> length ys = 0)"

definition isGenericTitle :: "string option \<Rightarrow> bool" where
  "isGenericTitle t =
     (case t of
        None \<Rightarrow> True
      | Some s \<Rightarrow>
          if s = [] then True
          else
            let normalized = toLowerCase (trim s)
            in if length normalized \<le> 6 then True
               else normalized \<in> set [''concept note'', ''project concept'', ''project proposal'',
                                       ''concept paper'', ''proposal''])"

definition apos :: string where
  "apos = [CHR 0x27]"

definition CLARITY_BLUEPRINT :: "ClarityBlueprintEntry list" where
  "CLARITY_BLUEPRINT =
     [\<lparr> bp_field = F_title,
        bp_question = ''What working title should we use for this project or initiative?'',
        bp_rationale = ''A clear title helps stakeholders quickly understand the concept note.'',
        bp_required = True,
        bp_assumptionSuggestion =
          Some (''I can suggest a working title if you'' @ apos @ ''d like me to propose one.''),
        bp_priority = 1,
        followUpNeeded = (\<lambda>inputs. \<not> truthy (title inputs) \<or> isGenericTitle (title inputs)) \<rparr>,
      \<lparr> bp_field = F_description,
        bp_question = ''What challenge are we addressing and what change do you want to see?'',
        bp_rationale = ''The description anchors every other section of the concept note.'',
        bp_required = True,
        bp_assumptionSuggestion =
          Some (''If it'' @ apos @ ''s easier, share a few bullet points and I''
                @ apos @ ''ll shape the narrative.''),
        bp_priority = 2,
        followUpNeeded =
          (\<lambda>inputs. case description inputs of
                       None \<Rightarrow> True
                     | Some d \<Rightarrow> d = [] \<or> length (trim d) < MIN_DESCRIPTION_LENGTH) \<rparr>,
      \<lparr> bp_field = F_objectives,
        bp_question = ''What are the top 2'' @ [en_dash]
                      @ ''3 objectives or outcomes you want from the project?'',
        bp_rationale = ''Objectives steer scope, success metrics, and stakeholder expectations.'',
        bp_required = False,
        bp_assumptionSuggestion =
          Some ''I can draft provisional objectives based on the problem we define.'',
        bp_priority = 3,
        followUpNeeded = (\<lambda>inputs. emptyList (objectives inputs)) \<rparr>,
      \<lparr> bp_field = F_targetAudience,
        bp_question = ''Who are the primary stakeholders or beneficiaries we should plan this for?'',
        bp_rationale = ''Audience definitions tailor messaging, tone, and success criteria.'',
        bp_required = False,
        bp_assumptionSuggestion =
          Some ''We can assume a general stakeholder audience if unspecified.'',
        bp_priority = 4,
        followUpNeeded = (\<lambda>inputs. \<not> truthy (targetAudience inputs)) \<rparr>,
      \<lparr> bp_field = F_timeline,
        bp_question = ''What timeline or key milestones are you targeting?'',
        bp_rationale = ''Schedule expectations influence the phasing and resourcing story.'',
        bp_required = False,
        bp_assumptionSuggestion =
          Some (''I can assume a 6'' @ [en_dash] @ ''12 month rollout if you don''
                @ apos @ ''t have a timeline yet.''),
        bp_priority = 5,
        followUpNeeded = (\<lambda>inputs. \<not> truthy (timeline inputs)) \<rparr>,
      \<lparr> bp_field = F_budget,
        bp_question = ''Do you have a working budget or funding envelope in mind?'',
        bp_rationale = ''Budget guidance helps shape scope and the investment narrative.'',
        bp_required = False,
        bp_assumptionSuggestion =
          Some ''We can note that budget will be confirmed during planning.'',
        bp_priority = 6,
        followUpNeeded = (\<lambda>inputs. \<not> truthy (budget inputs)) \<rparr>,
      \<lparr> bp_field = F_scope,
        bp_question = ''Is there a geographic or organizational scope we should design around?'',
        bp_rationale = ''Scope decisions influence compliance, partnerships, and delivery model.'',
        bp_required = False,
        bp_assumptionSuggestion =
          Some (''I'' @ apos @ ''ll assume a local or regional scope if nothing specific is set.''),
        bp_priority = 7,
        followUpNeeded = (\<lambda>inputs. \<not> truthy (scope inputs)) \<rparr>,
      \<lparr> bp_field = F_keyActivities,
        bp_question = ''What major activities or workstreams have you considered so far?'',
        bp_rationale = ''Activities help size the effort and align expectations.'',
        bp_required = False,
        bp_assumptionSuggestion =
          Some ''I can outline a typical phased delivery plan if needed.'',
        bp_priority = 8,
        followUpNeeded = (\<lambda>inputs. emptyList (keyActivities inputs)) \<rparr>,
      \<lparr> bp_field = F_keyChallenges,
        bp_question = ''Any known risks, constraints, or sensitivities we should factor in?'',
        bp_rationale = ''Calling out risks early lets us plan mitigations in the concept note.'',
        bp_required = False,
        bp_assumptionSuggestion =
          Some (''I'' @ apos @ ''ll highlight standard change management and resourcing risks.''),
        bp_priority = 9,
        followUpNeeded = (\<lambda>inputs. emptyList (keyChallenges inputs)) \<rparr>,
      \<lparr> bp_field = F_successMetrics,
        bp_question = ''How will you know this project worked? Any KPIs or signals of success?'',
        bp_rationale = ''Success metrics tie objectives to measurable outcomes.'',
        bp_required = False,
        bp_assumptionSuggestion =
          Some ''I can draft provisional KPIs aligned to the objectives.'',
        bp_priority = 10,
        followUpNeeded = (\<lambda>inputs. emptyList (successMetrics inputs)) \<rparr>,
      \<lparr> bp_field = F_keyPartners,
        bp_question = ''Are there partners, departments, or champions we should call out?'',
        bp_rationale = ''Listing partners strengthens the delivery plan and governance model.'',
        bp_required = False,
        bp_assumptionSuggestion =
          Some ''I can list typical internal sponsors and external collaborators.'',
        bp_priority = 11,
        followUpNeeded = (\<lambda>inputs. emptyList (keyPartners inputs)) \<rparr>]"

definition BLUEPRINT_LOOKUP :: "(InputField \<times> ClarityBlueprintEntry) list" where
  "BLUEPRINT_LOOKUP = newMap (map (\<lambda>entry. (bp_field entry, entry)) CLARITY_BLUEPRINT)"

definition takeTruthy :: "string option \<Rightarrow> string option \<Rightarrow> string option" where
  \<comment> \<open>\<open>if (updates.x) merged.x = updates.x\<close>\<close>
  "takeTruthy old new = (if truthy new then new else old)"

definition mergePreferences :: "OutputPreferences option \<Rightarrow> OutputPreferences \<Rightarrow> OutputPreferences" where
  \<comment> \<open>\<open>{ ...existing.outputPreferences, ...updates.outputPreferences }\<close>\<close>
  "mergePreferences old new =
     (case old of
        None \<Rightarrow> new
      | Some e \<Rightarrow>
          \<lparr> op_format = (case op_format new of None \<Rightarrow> op_format e | Some v \<Rightarrow> Some v),
            op_length = (case op_length new of None \<Rightarrow> op_length e | Some v \<Rightarrow> Some v),
            op_includeVisuals =
              (case op_includeVisuals new of None \<Rightarrow> op_includeVisuals e | Some v \<Rightarrow> Some v) \<rparr>)"

definition mergeList :: "string list option \<Rightarrow> string list option \<Rightarrow> string list option" where
  \<comment> \<open>\<open>if (updates.xs) merged.xs = mergeStringLists(existing.xs, updates.xs)\<close>\<close>
  "mergeList old new = (case new of None \<Rightarrow> old | Some _ \<Rightarrow> mergeStringLists old new)"

definition mergeUserInputs :: "UserInputs \<Rightarrow> UserInputs \<Rightarrow> UserInputs" where
  "mergeUserInputs existing updates =
     \<lparr> title = takeTruthy (title existing) (title updates),
       description = takeTruthy (description existing) (description updates),
       targetAudience = takeTruthy (targetAudience existing) (targetAudience updates),
       budget = takeTruthy (budget existing) (budget updates),
       timeline = takeTruthy (timeline existing) (timeline updates),
       scope = takeTruthy (scope existing) (scope updates),
       requirements = mergeList (requirements existing) (requirements updates),
       objectives = mergeList (objectives existing) (objectives updates),
       keyActivities = mergeList (keyActivities existing) (keyActivities updates),
       keyChallenges = mergeList (keyChallenges existing) (keyChallenges updates),
       successMetrics = mergeList (successMetrics existing) (successMetrics updates),
       keyPartners = mergeList (keyPartners existing) (keyPartners updates),
       outputPreferences =
         (case outputPreferences updates of
            None \<Rightarrow> outputPreferences existing
          | Some u \<Rightarrow> Some (mergePreferences (outputPreferences existing) u)) \<rparr>"

definition didUserRequestAssumptions :: "string \<Rightarrow> bool" where
  "didUserRequestAssumptions content =
     (let normalized = toLowerCase content
      in if normalized = [] then False
         else
           let explicitAssumption =
                 (includesStr normalized ''you can assume''
                  \<or> includesStr normalized ''feel free to assume'');
               proceedLanguage =
                 ((includesStr normalized ''proceed'' \<or> includesStr normalized ''go ahead''
                   \<or> includesStr normalized ''continue'' \<or> includesStr normalized ''carry on''
                   \<or> includesStr normalized ''keep going'')
                  \<and> (includesStr normalized ''assume'' \<or> includesStr normalized ''assumption''
                     \<or> includesStr normalized ''decide'' \<or> includesStr normalized ''estimate''
                     \<or> includesStr normalized ''use your judgment''
                     \<or> includesStr normalized ''make a call''))
           in explicitAssumption \<or> proceedLanguage)"

definition isAlnum :: "char \<Rightarrow> bool" where
  \<comment> \<open>\<open>[a-zA-Z0-9]\<close>\<close>
  "isAlnum c =
     (let n = of_char c :: nat
      in (97 \<le> n \<and> n \<le> 122) \<or> (65 \<le> n \<and> n \<le> 90) \<or> (48 \<le> n \<and> n \<le> 57))"

function splitWhiteSpace :: "string \<Rightarrow> string list" where
  \<comment> \<open>\<open>s.split(/\s+/)\<close>\<close>
  "splitWhiteSpace [] = [[]]"
| "splitWhiteSpace (c # cs) =
     (if isWhiteSpace c then [] # splitWhiteSpace (dropWhile isWhiteSpace cs)
      else (case splitWhiteSpace cs of
              [] \<Rightarrow> [[c]]
            | w # ws \<Rightarrow> (c # w) # ws))"
  by pat_completeness auto
termination
  by (relation "measure length") (auto simp: length_dropWhile_le le_imp_less_Suc)

definition capitalize :: "string \<Rightarrow> string" where
  "capitalize v = (case v of [] \<Rightarrow> [] | c # cs \<Rightarrow> toUpperChar c # toLowerCase cs)"

fun joinWith :: "string \<Rightarrow> string list \<Rightarrow> string" where
  "joinWith sep [] = []"
| "joinWith sep [x] = x"
| "joinWith sep (x # y # ys) = x @ sep @ joinWith sep (y # ys)"

definition suggestWorkingTitle :: "UserInputs \<Rightarrow> string" where
  "suggestWorkingTitle inputs =
     (if truthy (title inputs) \<and> \<not> isGenericTitle (title inputs)
      then (case title inputs of Some t \<Rightarrow> t | None \<Rightarrow> [])
      else
        let d = (case description inputs of None \<Rightarrow> [] | Some s \<Rightarrow> trim s);
            ws = map capitalize
                   (take 4 (filter (\<lambda>word. length word > 3)
                      (splitWhiteSpace
                         (map (\<lambda>c. if isAlnum c \<or> isWhiteSpace c then c else CHR 0x20) d))))
        in if d \<noteq> [] \<and> length ws \<ge> 2
           then joinWith '' '' (take 3 ws) @ '' Initiative''
           else (case targetAudience inputs of
                   None \<Rightarrow> ''Strategic Concept Note Initiative''
                 | Some a \<Rightarrow> if a \<noteq> [] then a @ '' Concept Initiative''
                             else ''Strategic Concept Note Initiative''))"

definition suggestObjectives :: "UserInputs \<Rightarrow> string list" where
  "suggestObjectives inputs =
     uniq [''Validate the solution approach through a structured pilot and stakeholder feedback.'',
           ''Deliver measurable improvements for ''
             @ (if truthy (targetAudience inputs)
                then (case targetAudience inputs of Some a \<Rightarrow> a | None \<Rightarrow> [])
                else ''key stakeholders'')
             @ '' within the initial implementation cycle.'',
           ''Establish governance, success metrics, and a roadmap that enable sustainable scale.'']"

definition applyAssumptionForField :: "InputField \<Rightarrow> UserInputs \<Rightarrow> bool \<times> UserInputs" where
  \<comment> \<open>the result and the inputs object after the call (the source updates it in place)\<close>
  "applyAssumptionForField field inputs =
     (case field of
        F_title \<Rightarrow>
          (let suggestion = suggestWorkingTitle inputs
           in if suggestion \<noteq> [] then (True, inputs\<lparr> title := Some suggestion \<rparr>)
              else (False, inputs))
      | F_objectives \<Rightarrow>
          if emptyList (objectives inputs)
          then (True, inputs\<lparr> objectives := Some (suggestObjectives inputs) \<rparr>)
          else (False, inputs)
      | F_targetAudience \<Rightarrow>
          if \<not> truthy (targetAudience inputs)
          then (True, inputs\<lparr> targetAudience := Some ''General stakeholders (assumed)'' \<rparr>)
          else (False, inputs)
      | F_timeline \<Rightarrow>
          if \<not> truthy (timeline inputs)
          then (True, inputs\<lparr> timeline :=
                  Some (''Approximately 6'' @ [en_dash] @ ''12 months (assumed)'') \<rparr>)
          else (False, inputs)
      | F_budget \<Rightarrow>
          if \<not> truthy (budget inputs)
          then (True, inputs\<lparr> budget :=
                  Some ''Budget to be confirmed during planning (assumed)'' \<rparr>)
          else (False, inputs)
      | F_scope \<Rightarrow>
          if \<not> truthy (scope inputs)
          then (True, inputs\<lparr> scope := Some ''Local or regional focus (assumed)'' \<rparr>)
          else (False, inputs)
      | F_keyActivities \<Rightarrow>
          if emptyList (keyActivities inputs)
          then (True, inputs\<lparr> keyActivities :=
                  Some [''Discovery and requirements workshops'',
                        ''Pilot implementation of the core solution'',
                        ''Evaluation and scale-up planning''] \<rparr>)
          else (False, inputs)
      | F_keyChallenges \<Rightarrow>
          if emptyList (keyChallenges inputs)
          then (True, inputs\<lparr> keyChallenges :=
                  Some [''Stakeholder alignment and change management'',
                        ''Resource availability and budget approvals'',
                        ''Data, compliance, or policy considerations''] \<rparr>)
          else (False, inputs)
      | F_successMetrics \<Rightarrow>
          if emptyList (successMetrics inputs)
          then (True, inputs\<lparr> successMetrics :=
                  Some [''Achievement of the primary project objectives'',
                        ''Stakeholder satisfaction beating target thresholds'',
                        ''On-time delivery of critical milestones''] \<rparr>)
          else (False, inputs)
      | F_keyPartners \<Rightarrow>
          if emptyList (keyPartners inputs)
          then (True, inputs\<lparr> keyPartners :=
                  Some [''Executive sponsor or leadership champion'',
                        ''Core delivery team or PMO'',
                        ''Key external collaborators or vendors''] \<rparr>)
          else (False, inputs)
      | F_requirements \<Rightarrow>
          if emptyList (requirements inputs)
          then (True, inputs\<lparr> requirements :=
                  Some [''Detailed functional and non-functional requirements to be confirmed with stakeholders.''] \<rparr>)
          else (False, inputs)
      | _ \<Rightarrow> (False, inputs))"

definition assumeEntry ::
  "InputField list \<times> UserInputs \<Rightarrow> ClarityBlueprintEntry \<Rightarrow> InputField list \<times> UserInputs" where
  \<comment> \<open>one round of the loop of \<open>applyAssumptionsIfRequested\<close>\<close>
  "assumeEntry acc entry =
     (case acc of (assumedFields, inputs) \<Rightarrow>
        if followUpNeeded entry inputs
        then (case applyAssumptionForField (bp_field entry) inputs of
                (ok, inputs') \<Rightarrow>
                  if ok then (List.insert (bp_field entry) assumedFields, inputs')
                  else (assumedFields, inputs'))
        else (assumedFields, inputs))"

definition applyAssumptionsIfRequested :: "UserInputs \<Rightarrow> InputField list \<times> UserInputs" where
  \<comment> \<open>the set of assumed fields and the inputs object after the call\<close>
  "applyAssumptionsIfRequested inputs = foldl assumeEntry ([], inputs) CLARITY_BLUEPRINT"

definition blueprintPriority :: "InputField \<Rightarrow> nat" where
  \<comment> \<open>\<open>BLUEPRINT_LOOKUP.get(field)?.priority ?? Number.MAX_SAFE_INTEGER\<close>\<close>
  "blueprintPriority f =
     (case map_of BLUEPRINT_LOOKUP f of None \<Rightarrow> MAX_SAFE_INTEGER | Some e \<Rightarrow> bp_priority e)"

definition byBlueprintOrder :: "ClarifyingQuestion \<Rightarrow> ClarifyingQuestion \<Rightarrow> bool" where
  \<comment> \<open>the comparator of the sort of the pending questions\<close>
  "byBlueprintOrder a b =
     (let priorityA = blueprintPriority (cq_field a);
          priorityB = blueprintPriority (cq_field b)
      in if priorityA \<noteq> priorityB then int priorityA - int priorityB \<le> 0
         else int (timesAsked a) - int (timesAsked b) \<le> 0)"

definition trackEntry ::
  "UserInputs \<Rightarrow> InputField list \<Rightarrow> string \<Rightarrow> (InputField \<Rightarrow> string) \<Rightarrow>
   (InputField \<times> ClarifyingQuestion) list \<Rightarrow> ClarityBlueprintEntry \<Rightarrow>
   (InputField \<times> ClarifyingQuestion) list" where
  \<comment> \<open>one round of the loop over the blueprint in \<open>prepareClarifyingQuestions\<close>; \<open>uuid f\<close>
      is the identifier \<open>uuidv4()\<close> draws for a new question on field \<open>f\<close>\<close>
  "trackEntry inputs assumedFields now uuid questionMap entry =
     (let questionKey = bp_field entry
      in if followUpNeeded entry inputs
         then (case map_of questionMap questionKey of
                 Some existing \<Rightarrow>
                   AList.update questionKey (existing\<lparr> cq_status := pending \<rparr>) questionMap
               | None \<Rightarrow>
                   AList.update questionKey
                     \<lparr> cq_id = ''clarify-'' @ fieldName questionKey @ ''-'' @ uuid questionKey,
                       cq_field = questionKey, cq_question = bp_question entry,
                       cq_rationale = bp_rationale entry, cq_required = bp_required entry,
                       cq_status = pending, timesAsked = 0, lastAskedAt = now,
                       cq_assumptionSuggestion = bp_assumptionSuggestion entry \<rparr>
                     questionMap)
         else (case map_of questionMap questionKey of
                 Some existing \<Rightarrow>
                   AList.update questionKey
                     (existing\<lparr> cq_status :=
                        (if questionKey \<in> set assumedFields then assumed else answered) \<rparr>)
                     questionMap
               | None \<Rightarrow> questionMap))"

fun selectQuestions ::
  "string \<Rightarrow> ClarifyingQuestion list \<Rightarrow> ClarifyingQuestion list \<Rightarrow> ClarifyingQuestion list" where
  \<comment> \<open>the loop that fills \<open>questionsToAsk\<close>, with its \<open>break\<close>\<close>
  "selectQuestions now [] questionsToAsk = questionsToAsk"
| "selectQuestions now (question # rest) questionsToAsk =
     (case map_of BLUEPRINT_LOOKUP (cq_field question) of
        None \<Rightarrow> selectQuestions now rest questionsToAsk
      | Some blueprint \<Rightarrow>
          if timesAsked question = 0 \<or> bp_required blueprint
          then (let asked = questionsToAsk
                       @ [question\<lparr> timesAsked := timesAsked question + 1, lastAskedAt := now \<rparr>]
                in if length asked \<ge> MAX_QUESTIONS_PER_PROMPT then asked
                   else selectQuestions now rest asked)
          else selectQuestions now rest questionsToAsk)"

definition prepareClarifyingQuestions ::
  "string \<Rightarrow> (InputField \<Rightarrow> string) \<Rightarrow> ClarifyingQuestion list option \<Rightarrow> UserInputs \<Rightarrow>
   InputField list \<Rightarrow> ClarifyingQuestion list \<times> ClarifyingQuestion list" where
  \<comment> \<open>the pair (updatedQuestions, questionsToAsk); \<open>now\<close> is \<open>new Date().toISOString()\<close>\<close>
  "prepareClarifyingQuestions now uuid existingQuestions inputs assumedFields =
     (let initial = foldl (\<lambda>m question. AList.update (cq_field question) question m) []
                      (orEmpty existingQuestions);
          questionMap = foldl (trackEntry inputs assumedFields now uuid) initial CLARITY_BLUEPRINT;
          pendingQs = sortBy byBlueprintOrder
                        (filter (\<lambda>question. cq_status question = pending) (map snd questionMap));
          questionsToAsk = selectQuestions now pendingQs [];
          final = foldl (\<lambda>m question. AList.update (cq_field question) question m)
                    questionMap questionsToAsk
      in (map snd final, questionsToAsk))"

record IntakeState =
  in_messages :: "BaseMessage list"
  userInputs :: "UserInputs option"
  clarifyingQuestions :: "ClarifyingQuestion list option"

record IntakeReturn =
  ret_userInputs :: "UserInputs option"
  ret_clarifyingQuestions :: "ClarifyingQuestion list option"
  needsUserIntervention :: bool
  conceptNoteStage :: string
  interventionReason :: "string option"
  questionsAsked :: "ClarifyingQuestion list"

definition noInputs :: UserInputs where
  \<comment> \<open>the empty object \<open>{}\<close>\<close>
  "noInputs =
     \<lparr> title = None, description = None, targetAudience = None, budget = None,
       timeline = None, scope = None, requirements = None, objectives = None,
       keyActivities = None, keyChallenges = None, successMetrics = None,
       keyPartners = None, outputPreferences = None \<rparr>"

definition userIntakeNode ::
  "(string \<Rightarrow> UserInputs) \<Rightarrow> string \<Rightarrow> (InputField \<Rightarrow> string) \<Rightarrow> IntakeState \<Rightarrow> IntakeReturn" where
  \<comment> \<open>first argument: \<open>extractUserInputsFromContent\<close>, the pattern-based extractor;
      \<open>questionsAsked\<close> are the questions the clarifying prompt lists (the texts of the
      prompt and of the confirmation message are not modelled)\<close>
  "userIntakeNode extractUserInputsFromContent now uuid state =
     (case getLatestHumanMessage (in_messages state) of
        None \<Rightarrow>
          \<lparr> ret_userInputs = None, ret_clarifyingQuestions = None,
            needsUserIntervention = True, conceptNoteStage = ''intake'',
            interventionReason = Some ''no_user_input'', questionsAsked = [] \<rparr>
      | Some latestHumanMessage \<Rightarrow>
          (let userContent = msg_content latestHumanMessage;
               existingInputs = (case userInputs state of None \<Rightarrow> noInputs | Some i \<Rightarrow> i);
               parsedInputs = extractUserInputsFromContent userContent;
               merged = mergeUserInputs existingInputs parsedInputs;
               userRequestedAssumptions = didUserRequestAssumptions userContent;
               applied = (if userRequestedAssumptions then applyAssumptionsIfRequested merged
                          else ([], merged));
               prepared = prepareClarifyingQuestions now uuid (clarifyingQuestions state)
                            (snd applied) (fst applied)
           in if length (snd prepared) > 0
              then \<lparr> ret_userInputs = Some (snd applied),
                     ret_clarifyingQuestions = Some (fst prepared),
                     needsUserIntervention = True, conceptNoteStage = ''intake'',
                     interventionReason = Some ''clarify_requirements'',
                     questionsAsked = snd prepared \<rparr>
              else \<lparr> ret_userInputs = Some (snd applied),
                     ret_clarifyingQuestions = Some (fst prepared),
                     needsUserIntervention = False, conceptNoteStage = ''research'',
                     interventionReason = None, questionsAsked = [] \<rparr>))"

section \<open>Auxiliary notions and sample data for the verification\<close>

definition filled :: "(string \<times> string) list \<Rightarrow> RequirementSpec \<Rightarrow> bool" where
  \<comment> \<open>the scorer's test for a required field that has a non-blank value\<close>
  "filled dos field = nonBlank (map_of dos (req_id field))"

definition mkField :: "string \<Rightarrow> rat option \<Rightarrow> bool \<Rightarrow> RequirementSpec" where
  "mkField i w r =
     \<lparr> req_id = i, req_label = i, req_description = [], req_weight = w, req_required = r \<rparr>"

definition mkDefinition ::
  "RequirementSpec list \<Rightarrow> RequirementSpec list \<Rightarrow> QuestionSpec list \<Rightarrow> DocumentDefinition" where
  "mkDefinition req opt qs =
     \<lparr> def_id = ''prd'', def_name = ''PRD'', def_description = [], stage_hint = None,
       def_template = ''prd.md'', template_markdown = None, prerequisites = None,
       required_fields = req, optional_fields = opt, diagnostic_questions = qs,
       research_prompts = None \<rparr>"



definition twoFieldDefinition :: DocumentDefinition where
  \<comment> \<open>Scenarios A and B of the specification: two required fields of weight 1, no
      optional field\<close>
  "twoFieldDefinition =
     mkDefinition [mkField ''problem'' None True, mkField ''goals'' (Some 1) True] []
       [\<lparr> qs_id = ''q1'', qs_text = ''What problem?'', qs_targets = [''problem''] \<rparr>,
        \<lparr> qs_id = ''q2'', qs_text = ''Which goals?'', qs_targets = [''goals'', ''problem''] \<rparr>]"


definition ghostDocument :: RawDocumentDefinition where
  \<comment> \<open>a catalog entry whose only question targets a field that is not declared\<close>
  "ghostDocument =
     \<lparr> rd_id = ''prd'', rd_name = ''PRD'', rd_description = [], rd_stage_hint = None,
       rd_template = ''prd.md'', rd_pre_requisites_documents = None,
       rd_document_template = None,
       rd_required_fields =
         [\<lparr> raw_id = ''problem'', raw_label = ''Problem'', raw_description = [],
            raw_weight = None \<rparr>],
       rd_optional_fields = None,
       rd_diagnostic_questions =
         Some [\<lparr> qs_id = ''q1'', qs_text = ''Who owns it?'', qs_targets = [''ghost''] \<rparr>],
       rd_research_prompts = None \<rparr>"

definition humanMessage :: "string option \<Rightarrow> string \<Rightarrow> BaseMessage" where
  "humanMessage i c =
     \<lparr> msg_type = human, msg_id = i, kwargs_id = None, additional_kwargs_id = None,
       msg_content = c \<rparr>"

definition sampleSession :: DocSessionState where
  \<comment> \<open>a session on the two-field definition, as \<open>createSession\<close> leaves it, after the
      message \<open>m1\<close>\<close>
  "sampleSession =
     \<lparr> active = True, docType = ''prd'', ses_definition = twoFieldDefinition,
       answers = [], dossier = [],
       pendingQuestions =
         [\<lparr> qp_id = ''q2'', qp_text = ''Which goals?'', qp_targets = [''goals'', ''problem''],
            priority = 5 / 2 \<rparr>,
          \<lparr> qp_id = ''q1'', qp_text = ''What problem?'', qp_targets = [''problem''],
            priority = 2 \<rparr>],
       researchPlan = [], citations = [], confidence = 0, readyToGenerate = False,
       ses_template = ''prd.md'', ses_title = ''PRD Draft'',
       processedMessageIds = [''m1''], lastAskedQuestionId = None \<rparr>"

definition provides :: "ExtractedAnswer \<Rightarrow> string \<Rightarrow> bool" where
  \<comment> \<open>the extracted answer carries a value for the field: the loop does not skip it\<close>
  "provides a fid \<longleftrightarrow> ea_fieldId a = fid \<and> trim (ea_value a) \<noteq> []"

definition given :: "ExtractionResponse option \<Rightarrow> string \<Rightarrow> bool" where
  \<comment> \<open>the message provides a value for the field\<close>
  "given response fid =
     (case response of None \<Rightarrow> False | Some r \<Rightarrow> list_ex (\<lambda>a. provides a fid) (ex_answers r))"

definition priorTimestamps :: "DocSessionState \<Rightarrow> string \<Rightarrow> int list" where
  \<comment> \<open>the history of the field before the message\<close>
  "priorTimestamps s fid = (case map_of (answers s) fid of None \<Rightarrow> [] | Some r \<Rightarrow> timestamps r)"

definition answeredSession :: DocSessionState where
  \<comment> \<open>the sample session with \<open>problem\<close> answered at time 5\<close>
  "answeredSession =
     sampleSession
       \<lparr> answers := [(''problem'', \<lparr> fieldId = ''problem'', ans_value = ''slow builds'',
                                    ans_source = user, ans_confidence = 9 / 10,
                                    timestamps = [5] \<rparr>)],
         dossier := [(''problem'', ''slow builds'')] \<rparr>"

definition goalsResponse :: ExtractionResponse where
  "goalsResponse =
     \<lparr> ex_answers = [\<lparr> ea_fieldId = ''goals'', ea_value = '' faster CI '', ea_confidence = 4 / 5 \<rparr>,
                     \<lparr> ea_fieldId = ''problem'', ea_value = ''  '', ea_confidence = 1 / 2 \<rparr>],
       ex_title = None \<rparr>"

definition answering :: "DocSessionState \<Rightarrow> bool \<Rightarrow> bool" where
  \<comment> \<open>the message is taken as the answer to the question asked last: that question is
      recorded, is still pending, and the message is not a readiness utterance\<close>
  "answering s readyIntent \<longleftrightarrow>
     truthy (lastAskedQuestionId s)
     \<and> find (\<lambda>question. Some (qp_id question) = lastAskedQuestionId s) (pendingQuestions s) \<noteq> None
     \<and> \<not> readyIntent"

definition isNew :: "DocSessionState \<Rightarrow> BaseMessage \<Rightarrow> bool" where
  \<comment> \<open>the message's id is not in the session's ledger\<close>
  "isNew s m =
     (case getDeterministicMessageId m of
        None \<Rightarrow> True | Some i \<Rightarrow> i \<notin> set (processedMessageIds s))"

definition idleSession :: DocSessionState where
  \<comment> \<open>a session that is not ready and has no pending question\<close>
  "idleSession = sampleSession\<lparr> pendingQuestions := [] \<rparr>"

definition readySession :: DocSessionState where
  \<comment> \<open>the sample session after a readiness utterance: ready, nothing answered\<close>
  "readySession = sampleSession\<lparr> readyToGenerate := True \<rparr>"

definition sampleEnv :: DocsEnv where
  "sampleEnv =
     \<lparr> env_cache = None, env_source = Inl ReadFailed,
       env_response = Some \<lparr> ex_answers = [], ex_title = None \<rparr>,
       env_dateNow = (\<lambda>k. 0), env_render = (\<lambda>t s c. []) \<rparr>"

definition ledgerAfter :: "DocSessionState \<Rightarrow> BaseMessage \<Rightarrow> string list" where
  \<comment> \<open>\<open>processedMessageIds\<close> once the message is entered\<close>
  "ledgerAfter s m =
     (case getDeterministicMessageId m of
        None \<Rightarrow> processedMessageIds s
      | Some i \<Rightarrow> if i \<noteq> [] then processedMessageIds s @ [i] else processedMessageIds s)"

definition askedSession :: DocSessionState where
  \<comment> \<open>the sample session with question \<open>q1\<close> asked\<close>
  "askedSession = sampleSession\<lparr> lastAskedQuestionId := Some ''q1'' \<rparr>"

definition updatedBy :: "DocsEnv \<Rightarrow> DocSessionState \<Rightarrow> BaseMessage list \<Rightarrow> DocSessionState" where
  \<comment> \<open>the session \<open>maybeHandleDocSession\<close> scores: the given one after the latest human
      message, if there is one\<close>
  "updatedBy env s messages =
     (case getLatestHumanMessage messages of
        None \<Rightarrow> s
      | Some m \<Rightarrow> updateSessionFromMessage (env_response env) (env_dateNow env) s m
                   (latestHumanIndex messages))"

definition needs :: "InputField \<Rightarrow> UserInputs \<Rightarrow> bool" where
  \<comment> \<open>the blueprint's \<open>followUpNeeded\<close> tests, by field\<close>
  "needs f i =
     (case f of
        F_title \<Rightarrow> \<not> truthy (title i) \<or> isGenericTitle (title i)
      | F_description \<Rightarrow>
          (case description i of
             None \<Rightarrow> True
           | Some d \<Rightarrow> d = [] \<or> length (trim d) < MIN_DESCRIPTION_LENGTH)
      | F_objectives \<Rightarrow> emptyList (objectives i)
      | F_targetAudience \<Rightarrow> \<not> truthy (targetAudience i)
      | F_timeline \<Rightarrow> \<not> truthy (timeline i)
      | F_budget \<Rightarrow> \<not> truthy (budget i)
      | F_scope \<Rightarrow> \<not> truthy (scope i)
      | F_keyActivities \<Rightarrow> emptyList (keyActivities i)
      | F_keyChallenges \<Rightarrow> emptyList (keyChallenges i)
      | F_successMetrics \<Rightarrow> emptyList (successMetrics i)
      | F_keyPartners \<Rightarrow> emptyList (keyPartners i)
      | _ \<Rightarrow> False)"

definition blueprintFields :: "InputField list" where
  "blueprintFields =
     [F_title, F_description, F_objectives, F_targetAudience, F_timeline, F_budget, F_scope,
      F_keyActivities, F_keyChallenges, F_successMetrics, F_keyPartners]"

definition defaultable :: "InputField \<Rightarrow> bool" where
  \<comment> \<open>the blueprint fields for which \<open>applyAssumptionForField\<close> has a default: all but the
      description\<close>
  "defaultable f \<longleftrightarrow> f \<in> set blueprintFields \<and> f \<noteq> F_description"

definition fill :: "InputField \<Rightarrow> UserInputs \<Rightarrow> UserInputs" where
  \<comment> \<open>the inputs after the round of \<open>applyAssumptionsIfRequested\<close> for one field\<close>
  "fill f i = (if needs f i then snd (applyAssumptionForField f i) else i)"

definition fieldValue :: "InputField \<Rightarrow> UserInputs \<Rightarrow> string list option" where
  \<comment> \<open>the value of a field, a scalar as a one-element list\<close>
  "fieldValue f i =
     (case f of
        F_title \<Rightarrow> map_option (\<lambda>s. [s]) (title i)
      | F_description \<Rightarrow> map_option (\<lambda>s. [s]) (description i)
      | F_targetAudience \<Rightarrow> map_option (\<lambda>s. [s]) (targetAudience i)
      | F_budget \<Rightarrow> map_option (\<lambda>s. [s]) (budget i)
      | F_timeline \<Rightarrow> map_option (\<lambda>s. [s]) (timeline i)
      | F_scope \<Rightarrow> map_option (\<lambda>s. [s]) (scope i)
      | F_requirements \<Rightarrow> requirements i
      | F_objectives \<Rightarrow> objectives i
      | F_keyActivities \<Rightarrow> keyActivities i
      | F_keyChallenges \<Rightarrow> keyChallenges i
      | F_successMetrics \<Rightarrow> successMetrics i
      | F_keyPartners \<Rightarrow> keyPartners i
      | _ \<Rightarrow> None)"

definition documentedDefault :: "InputField \<Rightarrow> UserInputs \<Rightarrow> string list" where
  \<comment> \<open>the default \<open>applyAssumptionForField\<close> writes for a field\<close>
  "documentedDefault f i =
     (case f of
        F_title \<Rightarrow> [suggestWorkingTitle i]
      | F_objectives \<Rightarrow> suggestObjectives i
      | F_targetAudience \<Rightarrow> [''General stakeholders (assumed)'']
      | F_timeline \<Rightarrow> [''Approximately 6'' @ [en_dash] @ ''12 months (assumed)'']
      | F_budget \<Rightarrow> [''Budget to be confirmed during planning (assumed)'']
      | F_scope \<Rightarrow> [''Local or regional focus (assumed)'']
      | F_keyActivities \<Rightarrow>
          [''Discovery and requirements workshops'',
           ''Pilot implementation of the core solution'',
           ''Evaluation and scale-up planning'']
      | F_keyChallenges \<Rightarrow>
          [''Stakeholder alignment and change management'',
           ''Resource availability and budget approvals'',
           ''Data, compliance, or policy considerations'']
      | F_successMetrics \<Rightarrow>
          [''Achievement of the primary project objectives'',
           ''Stakeholder satisfaction beating target thresholds'',
           ''On-time delivery of critical milestones'']
      | F_keyPartners \<Rightarrow>
          [''Executive sponsor or leadership champion'',
           ''Core delivery team or PMO'',
           ''Key external collaborators or vendors'']
      | _ \<Rightarrow> [])"

definition bump :: "string \<Rightarrow> ClarifyingQuestion \<Rightarrow> ClarifyingQuestion" where
  \<comment> \<open>a question as it is put on the list of questions to ask\<close>
  "bump now q = q\<lparr> timesAsked := timesAsked q + 1, lastAskedAt := now \<rparr>"

definition keyed :: "(InputField \<times> ClarifyingQuestion) list \<Rightarrow> bool" where
  \<comment> \<open>every question of the map sits under its own field\<close>
  "keyed m \<longleftrightarrow> list_all (\<lambda>kq. cq_field (snd kq) = fst kq) m"

definition scenarioDMessage :: string where
  "scenarioDMessage = ''you can assume the rest and proceed''"

definition scenarioDExtracted :: UserInputs where
  \<comment> \<open>what \<open>extractUserInputsFromContent\<close> finds in the message of Scenario D: the last
      title pattern takes the first line as the title; no other pattern matches and the
      text is too short to count as a description\<close>
  "scenarioDExtracted = noInputs\<lparr> title := Some scenarioDMessage \<rparr>"

definition scenarioDState :: IntakeState where
  \<comment> \<open>no prior inputs, no tracked questions, the message of Scenario D\<close>
  "scenarioDState =
     \<lparr> in_messages = [humanMessage None scenarioDMessage], userInputs = None,
       clarifyingQuestions = None \<rparr>"

definition mergedInputs :: "(string \<Rightarrow> UserInputs) \<Rightarrow> IntakeState \<Rightarrow> BaseMessage \<Rightarrow> UserInputs" where
  \<comment> \<open>the inputs \<open>userIntakeNode\<close> has after merging what the message yields\<close>
  "mergedInputs ex st m =
     mergeUserInputs (case userInputs st of None \<Rightarrow> noInputs | Some i \<Rightarrow> i) (ex (msg_content m))"

definition timelineAskedState :: IntakeState where
  \<comment> \<open>Scenario D with one tracked question, on the timeline, asked once before\<close>
  "timelineAskedState =
     scenarioDState
       \<lparr> clarifyingQuestions :=
           Some [\<lparr> cq_id = ''clarify-timeline-1'', cq_field = F_timeline,
                    cq_question = ''What timeline or key milestones are you targeting?'',
                    cq_rationale = [], cq_required = False, cq_status = pending,
                    timesAsked = 1, lastAskedAt = ''2025-01-01T00:00:00.000Z'',
                    cq_assumptionSuggestion = None \<rparr>] \<rparr>"

definition sampleNow :: string where
  "sampleNow = ''2025-01-02T00:00:00.000Z''"

definition sampleUuid :: "InputField \<Rightarrow> string" where
  "sampleUuid f = ''00000000-0000-4000-8000-000000000001''"


section \<open>Properties of the list merge\<close>

lemma orEmpty_simps [simp]: "orEmpty None = []" "orEmpty (Some xs) = xs"
  by (simp_all add: orEmpty_def)

lemma set_uniq: "set (uniq xs) = set xs"
  by (induction xs rule: uniq.induct) auto

lemma distinct_uniq: "distinct (uniq xs)"
  by (induction xs rule: uniq.induct) (auto simp: set_uniq)

lemma dropWhile_idem: "dropWhile P (dropWhile P xs) = dropWhile P xs"
  by (induction xs) auto

lemma trim_trim: "trim (trim s) = trim s"
proof -
  let ?d = "dropWhile isWhiteSpace"
  have hd_ok: "?d s \<noteq> [] \<Longrightarrow> \<not> isWhiteSpace (hd (?d s))"
    by (metis hd_dropWhile)
  have inner: "?d (rev (?d (rev (?d s)))) = rev (?d (rev (?d s)))"
  proof (cases "?d (rev (?d s)) = []")
    case True
    show ?thesis unfolding True by simp
  next
    case False
    then have ne: "?d s \<noteq> []" by (metis dropWhile.simps(1) rev.simps(1))
    obtain y ys where ys: "?d s = y # ys" using ne by (cases "?d s") auto
    have ny: "\<not> isWhiteSpace y" using hd_ok ne ys by simp
    have "\<exists>zs. ?d (rev ys @ [y]) = zs @ [y]"
      by (metis dropWhile_append1 dropWhile_append2 dropWhile.simps ny append_Nil)
    then obtain zs where zs: "?d (rev (?d s)) = zs @ [y]" using ys by auto
    then have "rev (?d (rev (?d s))) = y # rev zs" by simp
    then show ?thesis using ny by simp
  qed
  show ?thesis
    unfolding trim_def by (simp add: inner dropWhile_idem)
qed

lemma normalised_append: "normalised (xs @ ys) = normalised xs @ normalised ys"
  by (simp add: normalised_def)

lemma normalised_idem: "normalised (normalised xs) = normalised xs"
  by (induction xs) (auto simp: normalised_def trim_trim)

lemma set_normalised_uniq: "set (normalised (uniq xs)) = set (normalised xs)"
  by (simp add: normalised_def set_uniq)

lemma mergeStringLists_alt:
  "mergeStringLists e i =
     (if normalised (orEmpty e @ orEmpty i) = [] then e
      else Some (uniq (normalised (orEmpty e @ orEmpty i))))"
proof -
  have "uniq zs = [] \<longleftrightarrow> zs = []" for zs :: "string list"
    by (cases zs) auto
  then show ?thesis
    by (auto simp: mergeStringLists_def normalised_def Let_def)
qed

lemma set_merge_once:
  "normalised (orEmpty e @ xs) \<noteq> [] \<Longrightarrow>
   set (orEmpty (mergeStringLists e (Some xs))) = set (normalised (orEmpty e)) \<union> set (normalised xs)"
  by (auto simp: mergeStringLists_alt set_uniq normalised_append)

lemma normalised_merge:
  "set (normalised (orEmpty (mergeStringLists e (Some xs)))) =
   set (normalised (orEmpty e)) \<union> set (normalised xs)"
proof (cases "normalised (orEmpty e @ xs) = []")
  case True
  then show ?thesis
    by (simp add: mergeStringLists_alt normalised_append)
next
  case False
  then show ?thesis
    by (simp add: mergeStringLists_alt set_normalised_uniq normalised_idem)
       (auto simp: normalised_append)
qed

lemma merge_twice_set:
  "set (orEmpty (mergeStringLists (mergeStringLists e (Some xs)) (Some ys))) =
     (if normalised (orEmpty e @ xs @ ys) = [] then set (orEmpty e)
      else set (normalised (orEmpty e)) \<union> set (normalised xs) \<union> set (normalised ys))"
proof (cases "normalised (orEmpty e @ xs) = []")
  case True
  then have m1: "mergeStringLists e (Some xs) = e"
    by (simp add: mergeStringLists_alt)
  from True have ex: "normalised (orEmpty e) = []" "normalised xs = []"
    by (simp_all add: normalised_append)
  show ?thesis
    using ex by (simp add: m1 mergeStringLists_alt set_uniq normalised_append)
next
  case False
  let ?m = "mergeStringLists e (Some xs)"
  have ne: "set (normalised (orEmpty ?m)) \<noteq> {}"
    using False by (simp add: normalised_merge normalised_append)
  then have ne2: "normalised (orEmpty ?m @ ys) \<noteq> []"
    by (auto simp: normalised_append)
  have "set (orEmpty (mergeStringLists ?m (Some ys))) =
        set (normalised (orEmpty ?m)) \<union> set (normalised ys)"
    by (rule set_merge_once [OF ne2])
  then show ?thesis
    using False by (auto simp: normalised_merge normalised_append)
qed

lemma merge_twice_distinct:
  assumes "normalised (orEmpty e @ xs @ ys) \<noteq> []"
  shows "distinct (orEmpty (mergeStringLists (mergeStringLists e (Some xs)) (Some ys)))"
proof (cases "normalised (orEmpty e @ xs) = []")
  case True
  then have m1: "mergeStringLists e (Some xs) = e"
    by (simp add: mergeStringLists_alt)
  have "normalised (orEmpty e @ ys) \<noteq> []"
    using assms True by (simp add: normalised_append)
  then show ?thesis
    by (simp add: m1 mergeStringLists_alt distinct_uniq)
next
  case False
  let ?m = "mergeStringLists e (Some xs)"
  have "set (normalised (orEmpty ?m)) \<noteq> {}"
    using False by (simp add: normalised_merge normalised_append)
  then have "normalised (orEmpty ?m @ ys) \<noteq> []"
    by (auto simp: normalised_append)
  then show ?thesis
    by (simp add: mergeStringLists_alt [of ?m] distinct_uniq)
qed

lemma merge_twice_empty:
  assumes "normalised (orEmpty e @ xs @ ys) = []"
  shows "mergeStringLists (mergeStringLists e (Some xs)) (Some ys) = e"
  using assms by (simp add: mergeStringLists_alt normalised_append)

lemma merge_commute_mset:
  "mset (orEmpty (mergeStringLists (mergeStringLists e (Some us)) (Some vs))) =
   mset (orEmpty (mergeStringLists (mergeStringLists e (Some vs)) (Some us)))"
proof (cases "normalised (orEmpty e @ us @ vs) = []")
  case True
  then have "normalised (orEmpty e @ vs @ us) = []"
    by (simp add: normalised_append)
  then show ?thesis using True by (simp add: merge_twice_empty)
next
  case False
  then have f2: "normalised (orEmpty e @ vs @ us) \<noteq> []"
    by (auto simp: normalised_append)
  have s: "set (orEmpty (mergeStringLists (mergeStringLists e (Some us)) (Some vs))) =
           set (orEmpty (mergeStringLists (mergeStringLists e (Some vs)) (Some us)))"
    using False f2 by (simp only: merge_twice_set if_False) auto
  show ?thesis
    using merge_twice_distinct [OF False] merge_twice_distinct [OF f2] s
    by (simp add: set_eq_iff_mset_eq_distinct)
qed

text \<open>
  C10. Merging a list-valued blueprint field with \<open>[a, b]\<close> and then \<open>[b, c]\<close> keeps
  the same entries as merging it with \<open>[b, c]\<close> and then \<open>[a, b]\<close>: the two results are
  equal as sets, and each is a rearrangement of the other, whatever list (or no list) was
  recorded before. The same holds for any two incoming lists.
\<close>

theorem mergeStringLists_commute:
  "set (orEmpty (mergeStringLists (mergeStringLists e (Some [a, b])) (Some [b, c]))) =
   set (orEmpty (mergeStringLists (mergeStringLists e (Some [b, c])) (Some [a, b])))
   \<and> mset (orEmpty (mergeStringLists (mergeStringLists e (Some [a, b])) (Some [b, c]))) =
     mset (orEmpty (mergeStringLists (mergeStringLists e (Some [b, c])) (Some [a, b])))
   \<and> set (orEmpty (mergeStringLists (mergeStringLists e (Some xs)) (Some ys))) =
     set (orEmpty (mergeStringLists (mergeStringLists e (Some ys)) (Some xs)))
   \<and> mset (orEmpty (mergeStringLists (mergeStringLists e (Some xs)) (Some ys))) =
     mset (orEmpty (mergeStringLists (mergeStringLists e (Some ys)) (Some xs)))"
proof -
  have gen: "set (orEmpty (mergeStringLists (mergeStringLists e (Some us)) (Some vs))) =
             set (orEmpty (mergeStringLists (mergeStringLists e (Some vs)) (Some us)))" for us vs
    using merge_commute_mset [of e us vs] by (metis set_mset_mset)
  show ?thesis
    using gen [of "[a, b]" "[b, c]"] gen [of xs ys]
      merge_commute_mset [of e "[a, b]" "[b, c]"] merge_commute_mset [of e xs ys]
    by (intro conjI)
qed

section \<open>Confidence Scorer: completeness\<close>



lemma requiredPass_gen:
  "foldl (\<lambda>(coveredWeight, missing) field.
              if nonBlank (map_of dos (req_id field))
              then (coveredWeight + weightOr 1 field, missing)
              else (coveredWeight, missing @ [field])) (c, m) required =
   (c + sum_list (map (weightOr 1) (filter (filled dos) required)),
    m @ filter (\<lambda>f. \<not> filled dos f) required)"
  by (induction required arbitrary: c m) (auto simp: filled_def algebra_simps)

lemma requiredPass_eq:
  "requiredPass dos required =
     (sum_list (map (weightOr 1) (filter (filled dos) required)),
      filter (\<lambda>f. \<not> filled dos f) required)"
  by (simp add: requiredPass_def requiredPass_gen)


lemma missingRequired_eq:
  "missingRequired (computeConfidence d dos cits) =
     filter (\<lambda>f. \<not> filled dos f) (required_fields d)"
  by (simp add: computeConfidence_def Let_def requiredPass_eq)












section \<open>Confidence Scorer: the overall score\<close>





lemma trim_Nil [simp]: "trim [] = []"
  by (simp add: trim_def)












section \<open>Question Planner\<close>

lemma foldl_update_other:
  "x \<notin> k ` set xs \<Longrightarrow>
   map_of (foldl (\<lambda>m f. AList.update (k f) (v f) m) m0 xs) x = map_of m0 x"
  by (induction xs arbitrary: m0) (auto simp: update_conv')








lemma loaded_weights_explicit:
  "req_weight (normalizeRequirement input required) = Some (case raw_weight input of None \<Rightarrow> 1 | Some w \<Rightarrow> w)"
  by (simp add: normalizeRequirement_def)

text \<open>
  The planner's defaults apply to fields without a weight. A definition that comes out
  of \<open>loadDocumentCatalog\<close> has none: \<open>normalizeRequirement\<close> gives every field, required or
  optional, an explicit weight, 1 when the catalog states none.
\<close>



section \<open>Catalog loading\<close>

lemma newMap_gen:
  "map_of (foldl (\<lambda>m (k, v). AList.update k v m) m0 es) = map_of m0 ++ map_of (rev es)"
proof (induction es arbitrary: m0)
  case Nil
  then show ?case by simp
next
  case (Cons e es)
  obtain k v where e: "e = (k, v)" by (cases e)
  have "map_of (AList.update k v m0) ++ map_of (rev es)
        = map_of m0 ++ (map_of [(k, v)] ++ map_of (rev es))"
    by (auto simp: update_conv' map_add_def fun_eq_iff split: option.splits)
  then show ?case using Cons.IH [of "AList.update k v m0"] by (simp add: e)
qed

lemma map_of_newMap: "map_of (newMap es) = map_of (rev es)"
  by (simp add: newMap_def newMap_gen)

lemma keys_newMap_gen:
  "fst ` set (foldl (\<lambda>m (k, v). AList.update k v m) m0 es) = fst ` set m0 \<union> fst ` set es"
proof (induction es arbitrary: m0)
  case Nil
  then show ?case by simp
next
  case (Cons e es)
  obtain k v where e: "e = (k, v)" by (cases e)
  show ?case using Cons.IH [of "AList.update k v m0"] by (auto simp: e dom_update)
qed

lemma keys_newMap: "fst ` set (newMap es) = fst ` set es"
  by (simp add: newMap_def keys_newMap_gen)

lemma normalizeDocument_key: "fst (normalizeDocument doc) = rd_id doc"
  "def_id (snd (normalizeDocument doc)) = rd_id doc"
  by (simp_all add: normalizeDocument_def Let_def)

lemma load_fails_iff:
  "isl (fst (loadDocumentCatalog None src)) \<longleftrightarrow>
     (case src of Inl e \<Rightarrow> True | Inr None \<Rightarrow> True | Inr (Some parsed) \<Rightarrow> doc_types parsed = None)"
  by (auto simp: loadDocumentCatalog_def Let_def split: sum.splits option.splits)

lemma load_ok:
  assumes "doc_types parsed = Some docs"
  shows "fst (loadDocumentCatalog None (Inr (Some parsed))) = Inr (newMap (map normalizeDocument docs))"
  using assms by (simp add: loadDocumentCatalog_def Let_def)

lemma catalog_entries:
  assumes "map_of (newMap (map normalizeDocument docs)) i = Some dd"
  shows "def_id dd = i \<and> (\<exists>doc \<in> set docs. dd = snd (normalizeDocument doc))"
proof -
  have "(i, dd) \<in> set (rev (map normalizeDocument docs))"
    using assms by (simp only: map_of_newMap) (rule map_of_SomeD)
  then obtain doc where doc: "doc \<in> set docs" "normalizeDocument doc = (i, dd)"
    by auto
  have "def_id dd = i" using normalizeDocument_key [of doc] doc(2) by simp
  moreover have "dd = snd (normalizeDocument doc)" using doc(2) by simp
  ultimately show ?thesis using doc(1) by blast
qed

text \<open>
  C5, as the code has it. The loader does not look at the targets of the questions: a
  catalog whose only question targets the undeclared field \<open>ghost\<close> loads.
\<close>

theorem catalog_accepts_undeclared_target:
  "fst (loadDocumentCatalog None (Inr (Some \<lparr> doc_types = Some [ghostDocument] \<rparr>)))
     = Inr [(''prd'', snd (normalizeDocument ghostDocument))]
   \<and> qs_targets (hd (diagnostic_questions (snd (normalizeDocument ghostDocument)))) = [''ghost'']
   \<and> ''ghost'' \<notin> set (declaredIds (snd (normalizeDocument ghostDocument)))"
  by (simp add: loadDocumentCatalog_def newMap_def normalizeDocument_def ghostDocument_def
        normalizeRequirement_def normalizeQuestion_def declaredIds_def Let_def)

text \<open>
  C5, amended. With nothing cached, the load fails exactly when the file cannot be read
  or parsed, the parse gives nothing, or \<open>doc_types\<close> is missing (the last two with the
  error about the missing \<open>doc_types\<close> array). Every other source loads into a map from
  ids to definitions: its keys are the ids of the listed document types, and each entry
  is the normalised form of a listed document type of that id. The targets of the
  questions play no part.
\<close>

theorem catalog_load:
  "(isl (fst (loadDocumentCatalog None src)) \<longleftrightarrow>
      (case src of Inl e \<Rightarrow> True | Inr None \<Rightarrow> True
       | Inr (Some parsed) \<Rightarrow> doc_types parsed = None))
   \<and> (\<forall>e. src = Inl e \<longrightarrow> fst (loadDocumentCatalog None src) = Inl e)
   \<and> (src = Inr None \<longrightarrow> fst (loadDocumentCatalog None src) = Inl MissingDocTypes)
   \<and> (\<forall>parsed. src = Inr (Some parsed) \<and> doc_types parsed = None \<longrightarrow>
          fst (loadDocumentCatalog None src) = Inl MissingDocTypes)
   \<and> (\<forall>parsed docs. src = Inr (Some parsed) \<and> doc_types parsed = Some docs \<longrightarrow>
          (\<exists>c. fst (loadDocumentCatalog None src) = Inr c
               \<and> fst ` set c = rd_id ` set docs
               \<and> (\<forall>i dd. map_of c i = Some dd \<longrightarrow>
                      def_id dd = i \<and> (\<exists>doc \<in> set docs. dd = snd (normalizeDocument doc)))))"
proof -
  have ok: "\<exists>c. fst (loadDocumentCatalog None src) = Inr c
               \<and> fst ` set c = rd_id ` set docs
               \<and> (\<forall>i dd. map_of c i = Some dd \<longrightarrow>
                      def_id dd = i \<and> (\<exists>doc \<in> set docs. dd = snd (normalizeDocument doc)))"
    if "src = Inr (Some parsed)" "doc_types parsed = Some docs" for parsed docs
  proof -
    let ?c = "newMap (map normalizeDocument docs)"
    have "fst (loadDocumentCatalog None src) = Inr ?c"
      using that by (simp add: load_ok)
    moreover have "fst ` set ?c = rd_id ` set docs"
      by (simp add: keys_newMap image_image normalizeDocument_key)
    moreover have "\<forall>i dd. map_of ?c i = Some dd \<longrightarrow>
                      def_id dd = i \<and> (\<exists>doc \<in> set docs. dd = snd (normalizeDocument doc))"
      using catalog_entries by blast
    ultimately show ?thesis by blast
  qed
  have e1: "\<forall>e. src = Inl e \<longrightarrow> fst (loadDocumentCatalog None src) = Inl e"
    by (simp add: loadDocumentCatalog_def)
  have e2: "src = Inr None \<longrightarrow> fst (loadDocumentCatalog None src) = Inl MissingDocTypes"
    by (simp add: loadDocumentCatalog_def)
  have e3: "\<forall>parsed. src = Inr (Some parsed) \<and> doc_types parsed = None \<longrightarrow>
          fst (loadDocumentCatalog None src) = Inl MissingDocTypes"
    by (simp add: loadDocumentCatalog_def)
  show ?thesis using load_fails_iff [of src] e1 e2 e3 ok by blast
qed

theorem catalog_load_witness:
  "doc_types \<lparr> doc_types = Some [ghostDocument] \<rparr> = Some [ghostDocument]
   \<and> (\<exists>c. fst (loadDocumentCatalog None (Inr (Some \<lparr> doc_types = Some [ghostDocument] \<rparr>))) = Inr c
          \<and> fst ` set c = rd_id ` set [ghostDocument]
          \<and> map_of c ''prd'' \<noteq> None)
   \<and> fst (loadDocumentCatalog None (Inr (Some \<lparr> doc_types = None \<rparr>))) = Inl MissingDocTypes
   \<and> fst (loadDocumentCatalog None (Inl ReadFailed)) = Inl ReadFailed"
proof -
  let ?p = "\<lparr> doc_types = Some [ghostDocument] \<rparr>"
  have h: "doc_types ?p = Some [ghostDocument]" by simp
  obtain c where c: "fst (loadDocumentCatalog None (Inr (Some ?p))) = Inr c"
      "fst ` set c = rd_id ` set [ghostDocument]"
    using catalog_load [of "Inr (Some ?p)"] h by blast
  have "''prd'' \<in> fst ` set c" using c(2) by (simp add: ghostDocument_def)
  then have "map_of c ''prd'' \<noteq> None" by (simp add: map_of_eq_None_iff)
  moreover have "fst (loadDocumentCatalog None (Inr (Some \<lparr> doc_types = None \<rparr>)))
                 = Inl MissingDocTypes"
    using catalog_load [of "Inr (Some \<lparr> doc_types = None \<rparr>)"] by simp
  moreover have "fst (loadDocumentCatalog None (Inl ReadFailed)) = Inl ReadFailed"
    using catalog_load [of "Inl ReadFailed"] by simp
  ultimately show ?thesis using h c by blast
qed

section \<open>Sessions: a message is processed once\<close>

lemma updateSessionFromMessage_seen:
  "getMessageId message i \<in> set (processedMessageIds session) \<Longrightarrow>
   updateSessionFromMessage response dateNow session message i = session"
  by (simp add: updateSessionFromMessage_def)

lemma getDeterministicMessageId_nonempty:
  "getDeterministicMessageId m = Some i \<Longrightarrow> i \<noteq> []"
  by (auto simp: getDeterministicMessageId_def nonBlank_def Let_def split: if_splits option.splits)

lemma processDocSessionMessages_seen:
  assumes "getLatestHumanMessage messages = Some m"
    and "getDeterministicMessageId m = Some i"
    and "i \<in> set (processedMessageIds session)"
  shows "processDocSessionMessages ex ts session messages = session"
  using assms getDeterministicMessageId_nonempty [OF assms(2)]
  by (simp add: processDocSessionMessages_def)

lemma updateSessionFromMessage_records:
  "getMessageId message i \<in> set (processedMessageIds
      (updateSessionFromMessage response dateNow session message i))"
  by (simp add: updateSessionFromMessage_def Let_def)

lemma updateSessionFromMessage_twice:
  "updateSessionFromMessage response' dateNow'
     (updateSessionFromMessage response dateNow session message i) message i
   = updateSessionFromMessage response dateNow session message i"
  by (rule updateSessionFromMessage_seen) (rule updateSessionFromMessage_records)

lemma mergeProjectUserDetails_ids [simp]:
  "processedMessageIds (mergeProjectUserDetails s d) = processedMessageIds s"
  by (simp add: mergeProjectUserDetails_def Let_def split: option.splits)

lemma answerAskedQuestion_ids [simp]:
  "processedMessageIds (answerAskedQuestion ts c r s) = processedMessageIds s"
  by (simp add: answerAskedQuestion_def Let_def split: option.splits)

lemma processDocSessionMessages_records:
  assumes "getLatestHumanMessage messages = Some m"
    and "getDeterministicMessageId m = Some i"
  shows "i \<in> set (processedMessageIds (processDocSessionMessages ex ts session messages))"
  using assms getDeterministicMessageId_nonempty [OF assms(2)]
  by (simp add: processDocSessionMessages_def Let_def)

lemma no_id_blank:
  "getDeterministicMessageId m = None \<Longrightarrow> trim (msg_content m) = []"
  by (auto simp: getDeterministicMessageId_def nonBlank_def Let_def split: if_splits option.splits)

lemma processDocSessionMessages_no_id:
  assumes "getLatestHumanMessage messages = Some m"
    and "getDeterministicMessageId m = None"
  shows "processDocSessionMessages ex ts session messages = session"
  using assms no_id_blank [OF assms(2)]
  by (simp add: processDocSessionMessages_def Let_def)

lemma processDocSessionMessages_twice:
  "processDocSessionMessages ex' ts' (processDocSessionMessages ex ts session messages) messages
   = processDocSessionMessages ex ts session messages"
proof (cases "getLatestHumanMessage messages")
  case None
  then show ?thesis by (simp add: processDocSessionMessages_def)
next
  case (Some m)
  show ?thesis
  proof (cases "getDeterministicMessageId m")
    case None
    then show ?thesis using Some by (simp add: processDocSessionMessages_no_id)
  next
    case (Some i)
    show ?thesis
      using \<open>getLatestHumanMessage messages = Some m\<close> Some
      by (intro processDocSessionMessages_seen [of messages m i])
         (simp_all add: processDocSessionMessages_records)
  qed
qed

text \<open>
  C3. When the id of a message (its explicit id, or the fallback id derived for it) is
  already in \<open>processedMessageIds\<close>, processing the message returns the session as it
  is, in the generic session (\<open>updateSessionFromMessage\<close>) and in the conversational one
  (\<open>processDocSessionMessages\<close>); hence processing a message a second time changes
  nothing, whatever the extractor and the clock give the second time.
\<close>

theorem processed_message_is_skipped:
  "(getMessageId message i \<in> set (processedMessageIds session) \<longrightarrow>
      updateSessionFromMessage response dateNow session message i = session)
   \<and> (getLatestHumanMessage messages = Some m \<and> getDeterministicMessageId m = Some k
        \<and> k \<in> set (processedMessageIds session) \<longrightarrow>
      processDocSessionMessages ex ts session messages = session)
   \<and> updateSessionFromMessage response' dateNow'
        (updateSessionFromMessage response dateNow session message i) message i
      = updateSessionFromMessage response dateNow session message i
   \<and> processDocSessionMessages ex' ts' (processDocSessionMessages ex ts session messages) messages
      = processDocSessionMessages ex ts session messages"
  using updateSessionFromMessage_seen [of message i session response dateNow]
    processDocSessionMessages_seen [of messages m k session ex ts]
    updateSessionFromMessage_twice [of response' dateNow' response dateNow session message i]
    processDocSessionMessages_twice [of ex' ts' ex ts session messages]
  by blast

theorem processed_message_is_skipped_witness:
  "getMessageId (humanMessage (Some ''m1'') ''hello'') 0 \<in> set (processedMessageIds sampleSession)
   \<and> updateSessionFromMessage None (\<lambda>k. 0) sampleSession (humanMessage (Some ''m1'') ''hello'') 0
       = sampleSession
   \<and> getLatestHumanMessage [humanMessage (Some ''m1'') ''hello'']
       = Some (humanMessage (Some ''m1'') ''hello'')
   \<and> getDeterministicMessageId (humanMessage (Some ''m1'') ''hello'') = Some ''m1''
   \<and> processDocSessionMessages (\<lambda>c. None) 0 sampleSession [humanMessage (Some ''m1'') ''hello'']
       = sampleSession"
proof -
  let ?m = "humanMessage (Some ''m1'') ''hello''"
  have a: "getMessageId ?m 0 \<in> set (processedMessageIds sampleSession)"
    by (simp add: getMessageId_def humanMessage_def sampleSession_def)
  have b: "getLatestHumanMessage [?m] = Some ?m"
    by (simp add: getLatestHumanMessage_def humanMessage_def)
  have c: "getDeterministicMessageId ?m = Some ''m1''"
    by (simp add: getDeterministicMessageId_def humanMessage_def nonBlank_def trim_def
          isWhiteSpace_def)
  have d: "''m1'' \<in> set (processedMessageIds sampleSession)"
    by (simp add: sampleSession_def)
  note t = processed_message_is_skipped
             [of ?m 0 sampleSession None "\<lambda>k. 0" "[?m]" ?m "''m1''" "\<lambda>c. None" 0]
  have u: "updateSessionFromMessage None (\<lambda>k. 0) sampleSession ?m 0 = sampleSession"
    using t a by blast
  have p: "processDocSessionMessages (\<lambda>c. None) 0 sampleSession [?m] = sampleSession"
    using t b c d by blast
  show ?thesis using a b c u p by blast
qed

section \<open>Merging never loses a recorded answer\<close>

lemma applyAnswer_other:
  "\<not> provides a fid \<Longrightarrow>
   map_of (fst (applyAnswer s dn acc (k, a))) fid = map_of (fst acc) fid
   \<and> map_of (snd (applyAnswer s dn acc (k, a))) fid = map_of (snd acc) fid"
  by (cases acc) (auto simp: applyAnswer_def provides_def update_conv')

lemma applyAnswer_same:
  "provides a fid \<Longrightarrow>
   map_of (fst (applyAnswer s dn acc (k, a))) fid =
     Some \<lparr> fieldId = fid, ans_value = trim (ea_value a), ans_source = user,
            ans_confidence = ea_confidence a, timestamps = priorTimestamps s fid @ [dn k] \<rparr>
   \<and> map_of (snd (applyAnswer s dn acc (k, a))) fid = Some (trim (ea_value a))"
  by (cases acc) (auto simp: applyAnswer_def provides_def update_conv' priorTimestamps_def)

lemma applyAnswers_frame:
  "\<forall>ka \<in> set kas. \<not> provides (snd ka) fid \<Longrightarrow>
   map_of (fst (foldl (applyAnswer s dn) acc kas)) fid = map_of (fst acc) fid
   \<and> map_of (snd (foldl (applyAnswer s dn) acc kas)) fid = map_of (snd acc) fid"
proof (induction kas rule: rev_induct)
  case Nil
  then show ?case by simp
next
  case (snoc x xs)
  obtain k a where x: "x = (k, a)" by (cases x)
  have "\<not> provides a fid" using snoc.prems x by simp
  then show ?case using snoc applyAnswer_other [of a fid s dn "foldl (applyAnswer s dn) acc xs" k]
    by (simp add: x)
qed

lemma applyAnswers_given:
  "\<exists>ka \<in> set kas. provides (snd ka) fid \<Longrightarrow>
   \<exists>r t. map_of (fst (foldl (applyAnswer s dn) acc kas)) fid = Some r
        \<and> timestamps r = priorTimestamps s fid @ [t]
        \<and> map_of (snd (foldl (applyAnswer s dn) acc kas)) fid = Some (ans_value r)"
proof (induction kas rule: rev_induct)
  case Nil
  then show ?case by simp
next
  case (snoc x xs)
  obtain k a where x: "x = (k, a)" by (cases x)
  let ?prev = "foldl (applyAnswer s dn) acc xs"
  show ?case
  proof (cases "provides a fid")
    case True
    then show ?thesis using applyAnswer_same [of a fid s dn ?prev k] by (simp add: x)
  next
    case False
    then have "\<exists>ka \<in> set xs. provides (snd ka) fid" using snoc.prems x by auto
    then show ?thesis
      using snoc.IH applyAnswer_other [OF False, of s dn ?prev k] by (simp add: x)
  qed
qed

lemma enumerate_provides:
  "(\<exists>ka \<in> set (enumerate 0 xs). provides (snd ka) fid) \<longleftrightarrow> (\<exists>a \<in> set xs. provides a fid)"
proof -
  have "set xs = snd ` set (enumerate 0 xs)"
    by (metis map_snd_enumerate set_map)
  then show ?thesis by auto
qed

lemma session_maps:
  assumes "getMessageId message i \<notin> set (processedMessageIds session)"
  shows "answers (updateSessionFromMessage response dn session message i) =
           (case response of None \<Rightarrow> answers session
            | Some r \<Rightarrow> fst (foldl (applyAnswer session dn) (answers session, dossier session)
                               (enumerate 0 (ex_answers r))))"
    and "dossier (updateSessionFromMessage response dn session message i) =
           (case response of None \<Rightarrow> dossier session
            | Some r \<Rightarrow> snd (foldl (applyAnswer session dn) (answers session, dossier session)
                               (enumerate 0 (ex_answers r))))"
  using assms by (simp_all add: updateSessionFromMessage_def Let_def split: option.splits)

lemma update_frame:
  assumes "\<not> given response fid"
  shows "map_of (answers (updateSessionFromMessage response dn session message i)) fid
           = map_of (answers session) fid
     \<and> map_of (dossier (updateSessionFromMessage response dn session message i)) fid
           = map_of (dossier session) fid"
proof (cases "getMessageId message i \<in> set (processedMessageIds session)")
  case True
  then show ?thesis by (simp add: updateSessionFromMessage_def)
next
  case False
  show ?thesis
  proof (cases response)
    case None
    then show ?thesis using False by (simp add: session_maps)
  next
    case (Some r)
    have "\<forall>ka \<in> set (enumerate 0 (ex_answers r)). \<not> provides (snd ka) fid"
      using assms Some enumerate_provides [of "ex_answers r" fid]
      by (simp add: given_def list_ex_iff)
    then show ?thesis
      using applyAnswers_frame [of "enumerate 0 (ex_answers r)" fid session dn
              "(answers session, dossier session)"] False Some
      by (simp add: session_maps)
  qed
qed

lemma update_given:
  assumes "given response fid"
    and "getMessageId message i \<notin> set (processedMessageIds session)"
  shows "\<exists>r t. map_of (answers (updateSessionFromMessage response dn session message i)) fid = Some r
           \<and> timestamps r = priorTimestamps session fid @ [t]
           \<and> map_of (dossier (updateSessionFromMessage response dn session message i)) fid
               = Some (ans_value r)"
proof -
  obtain r where r: "response = Some r" "\<exists>a \<in> set (ex_answers r). provides a fid"
    using assms(1) by (auto simp: given_def list_ex_iff split: option.splits)
  have "\<exists>ka \<in> set (enumerate 0 (ex_answers r)). provides (snd ka) fid"
    using r(2) by (simp only: enumerate_provides)
  then show ?thesis
    using applyAnswers_given [of "enumerate 0 (ex_answers r)" fid session dn
            "(answers session, dossier session)"] assms(2) r(1)
    by (simp add: session_maps)
qed

lemma mergeList_keeps:
  "set (normalised (orEmpty old)) \<subseteq> set (normalised (orEmpty (mergeList old new)))"
  by (cases new) (auto simp: mergeList_def normalised_merge)

lemma mergeUserInputs_frame:
  "(\<not> truthy (title u) \<longrightarrow> title (mergeUserInputs e u) = title e)
   \<and> (\<not> truthy (description u) \<longrightarrow> description (mergeUserInputs e u) = description e)
   \<and> (\<not> truthy (targetAudience u) \<longrightarrow> targetAudience (mergeUserInputs e u) = targetAudience e)
   \<and> (\<not> truthy (budget u) \<longrightarrow> budget (mergeUserInputs e u) = budget e)
   \<and> (\<not> truthy (timeline u) \<longrightarrow> timeline (mergeUserInputs e u) = timeline e)
   \<and> (\<not> truthy (scope u) \<longrightarrow> scope (mergeUserInputs e u) = scope e)
   \<and> (requirements u = None \<longrightarrow> requirements (mergeUserInputs e u) = requirements e)
   \<and> (objectives u = None \<longrightarrow> objectives (mergeUserInputs e u) = objectives e)
   \<and> (keyActivities u = None \<longrightarrow> keyActivities (mergeUserInputs e u) = keyActivities e)
   \<and> (keyChallenges u = None \<longrightarrow> keyChallenges (mergeUserInputs e u) = keyChallenges e)
   \<and> (successMetrics u = None \<longrightarrow> successMetrics (mergeUserInputs e u) = successMetrics e)
   \<and> (keyPartners u = None \<longrightarrow> keyPartners (mergeUserInputs e u) = keyPartners e)
   \<and> (outputPreferences u = None \<longrightarrow>
        outputPreferences (mergeUserInputs e u) = outputPreferences e)"
  by (simp add: mergeUserInputs_def takeTruthy_def mergeList_def)

lemma mergeUserInputs_keeps_scalars:
  "(truthy (title e) \<longrightarrow> truthy (title (mergeUserInputs e u)))
   \<and> (truthy (description e) \<longrightarrow> truthy (description (mergeUserInputs e u)))
   \<and> (truthy (targetAudience e) \<longrightarrow> truthy (targetAudience (mergeUserInputs e u)))
   \<and> (truthy (budget e) \<longrightarrow> truthy (budget (mergeUserInputs e u)))
   \<and> (truthy (timeline e) \<longrightarrow> truthy (timeline (mergeUserInputs e u)))
   \<and> (truthy (scope e) \<longrightarrow> truthy (scope (mergeUserInputs e u)))"
  by (simp add: mergeUserInputs_def takeTruthy_def)

lemma mergeUserInputs_keeps_lists:
  "set (normalised (orEmpty (requirements e))) \<subseteq> set (normalised (orEmpty (requirements (mergeUserInputs e u))))
   \<and> set (normalised (orEmpty (objectives e))) \<subseteq> set (normalised (orEmpty (objectives (mergeUserInputs e u))))
   \<and> set (normalised (orEmpty (keyActivities e))) \<subseteq> set (normalised (orEmpty (keyActivities (mergeUserInputs e u))))
   \<and> set (normalised (orEmpty (keyChallenges e))) \<subseteq> set (normalised (orEmpty (keyChallenges (mergeUserInputs e u))))
   \<and> set (normalised (orEmpty (successMetrics e))) \<subseteq> set (normalised (orEmpty (successMetrics (mergeUserInputs e u))))
   \<and> set (normalised (orEmpty (keyPartners e))) \<subseteq> set (normalised (orEmpty (keyPartners (mergeUserInputs e u))))"
  by (simp add: mergeUserInputs_def mergeList_keeps)

text \<open>
  C9. In the generic session, a field for which the message provides no value keeps its
  answer record and its dossier value; a field for which a new message provides one gets
  a record whose history is the field's previous history with one timestamp appended,
  and the dossier holds the record's value; no field that had an answer or a dossier
  value loses it. In the blueprint intake, \<open>mergeUserInputs\<close> leaves every field for which
  the update has no value as it was, keeps every scalar field that was set, and keeps
  the (trimmed, non-blank) entries of every list field.
\<close>

theorem merge_keeps_recorded_answers:
  "(\<forall>fid. \<not> given response fid \<longrightarrow>
       map_of (answers (updateSessionFromMessage response dn session message i)) fid
         = map_of (answers session) fid
       \<and> map_of (dossier (updateSessionFromMessage response dn session message i)) fid
         = map_of (dossier session) fid)
   \<and> (\<forall>fid. given response fid \<and> getMessageId message i \<notin> set (processedMessageIds session) \<longrightarrow>
       (\<exists>r t. map_of (answers (updateSessionFromMessage response dn session message i)) fid = Some r
          \<and> timestamps r = priorTimestamps session fid @ [t]
          \<and> map_of (dossier (updateSessionFromMessage response dn session message i)) fid
              = Some (ans_value r)))
   \<and> (\<forall>fid. map_of (answers session) fid \<noteq> None \<longrightarrow>
       map_of (answers (updateSessionFromMessage response dn session message i)) fid \<noteq> None)
   \<and> (\<forall>fid. map_of (dossier session) fid \<noteq> None \<longrightarrow>
       map_of (dossier (updateSessionFromMessage response dn session message i)) fid \<noteq> None)
   \<and> (\<not> truthy (title u) \<longrightarrow> title (mergeUserInputs e u) = title e)
   \<and> (\<not> truthy (description u) \<longrightarrow> description (mergeUserInputs e u) = description e)
   \<and> (\<not> truthy (targetAudience u) \<longrightarrow> targetAudience (mergeUserInputs e u) = targetAudience e)
   \<and> (\<not> truthy (budget u) \<longrightarrow> budget (mergeUserInputs e u) = budget e)
   \<and> (\<not> truthy (timeline u) \<longrightarrow> timeline (mergeUserInputs e u) = timeline e)
   \<and> (\<not> truthy (scope u) \<longrightarrow> scope (mergeUserInputs e u) = scope e)
   \<and> (requirements u = None \<longrightarrow> requirements (mergeUserInputs e u) = requirements e)
   \<and> (objectives u = None \<longrightarrow> objectives (mergeUserInputs e u) = objectives e)
   \<and> (keyActivities u = None \<longrightarrow> keyActivities (mergeUserInputs e u) = keyActivities e)
   \<and> (keyChallenges u = None \<longrightarrow> keyChallenges (mergeUserInputs e u) = keyChallenges e)
   \<and> (successMetrics u = None \<longrightarrow> successMetrics (mergeUserInputs e u) = successMetrics e)
   \<and> (keyPartners u = None \<longrightarrow> keyPartners (mergeUserInputs e u) = keyPartners e)
   \<and> (outputPreferences u = None \<longrightarrow>
        outputPreferences (mergeUserInputs e u) = outputPreferences e)
   \<and> (truthy (title e) \<longrightarrow> truthy (title (mergeUserInputs e u)))
   \<and> (truthy (description e) \<longrightarrow> truthy (description (mergeUserInputs e u)))
   \<and> (truthy (targetAudience e) \<longrightarrow> truthy (targetAudience (mergeUserInputs e u)))
   \<and> (truthy (budget e) \<longrightarrow> truthy (budget (mergeUserInputs e u)))
   \<and> (truthy (timeline e) \<longrightarrow> truthy (timeline (mergeUserInputs e u)))
   \<and> (truthy (scope e) \<longrightarrow> truthy (scope (mergeUserInputs e u)))
   \<and> set (normalised (orEmpty (requirements e))) \<subseteq> set (normalised (orEmpty (requirements (mergeUserInputs e u))))
   \<and> set (normalised (orEmpty (objectives e))) \<subseteq> set (normalised (orEmpty (objectives (mergeUserInputs e u))))
   \<and> set (normalised (orEmpty (keyActivities e))) \<subseteq> set (normalised (orEmpty (keyActivities (mergeUserInputs e u))))
   \<and> set (normalised (orEmpty (keyChallenges e))) \<subseteq> set (normalised (orEmpty (keyChallenges (mergeUserInputs e u))))
   \<and> set (normalised (orEmpty (successMetrics e))) \<subseteq> set (normalised (orEmpty (successMetrics (mergeUserInputs e u))))
   \<and> set (normalised (orEmpty (keyPartners e))) \<subseteq> set (normalised (orEmpty (keyPartners (mergeUserInputs e u))))"
proof -
  let ?s = "updateSessionFromMessage response dn session message i"
  have A: "\<forall>fid. \<not> given response fid \<longrightarrow>
       map_of (answers ?s) fid = map_of (answers session) fid
       \<and> map_of (dossier ?s) fid = map_of (dossier session) fid"
    using update_frame by blast
  have B: "\<forall>fid. given response fid \<and> getMessageId message i \<notin> set (processedMessageIds session) \<longrightarrow>
       (\<exists>r t. map_of (answers ?s) fid = Some r
          \<and> timestamps r = priorTimestamps session fid @ [t]
          \<and> map_of (dossier ?s) fid = Some (ans_value r))"
    using update_given by blast
  have C: "map_of (answers ?s) fid \<noteq> None" if "map_of (answers session) fid \<noteq> None" for fid
  proof (cases "getMessageId message i \<in> set (processedMessageIds session)")
    case True
    then show ?thesis using that by (simp add: updateSessionFromMessage_seen)
  next
    case False
    show ?thesis
    proof (cases "given response fid")
      case True
      then show ?thesis using B False by fastforce
    next
      case False
      then show ?thesis using A that by simp
    qed
  qed
  have D: "map_of (dossier ?s) fid \<noteq> None" if "map_of (dossier session) fid \<noteq> None" for fid
  proof (cases "getMessageId message i \<in> set (processedMessageIds session)")
    case True
    then show ?thesis using that by (simp add: updateSessionFromMessage_seen)
  next
    case False
    show ?thesis
    proof (cases "given response fid")
      case True
      then show ?thesis using B False by fastforce
    next
      case False
      then show ?thesis using A that by simp
    qed
  qed
  show ?thesis
    apply (intro conjI)
    using A apply blast
    using B apply blast
    using C apply blast
    using D apply blast
    using mergeUserInputs_frame [of u e] mergeUserInputs_keeps_scalars [of e u]
      mergeUserInputs_keeps_lists [of e u]
    apply simp_all
    done
qed

theorem merge_keeps_recorded_answers_witness:
  "\<not> given (Some goalsResponse) ''problem''
   \<and> map_of (answers (updateSessionFromMessage (Some goalsResponse) (\<lambda>k. 9) answeredSession
                        (humanMessage (Some ''m2'') ''faster CI'') 1)) ''problem''
       = map_of (answers answeredSession) ''problem''
   \<and> given (Some goalsResponse) ''goals''
   \<and> getMessageId (humanMessage (Some ''m2'') ''faster CI'') 1
       \<notin> set (processedMessageIds answeredSession)
   \<and> (\<exists>r t. map_of (answers (updateSessionFromMessage (Some goalsResponse) (\<lambda>k. 9) answeredSession
                              (humanMessage (Some ''m2'') ''faster CI'') 1)) ''goals'' = Some r
          \<and> timestamps r = priorTimestamps answeredSession ''goals'' @ [t])
   \<and> truthy (title (noInputs\<lparr> title := Some ''Solar pumps'' \<rparr>))
   \<and> title (mergeUserInputs (noInputs\<lparr> title := Some ''Solar pumps'' \<rparr>) noInputs)
       = Some ''Solar pumps''"
proof -
  let ?m = "humanMessage (Some ''m2'') ''faster CI''"
  let ?e = "noInputs\<lparr> title := Some ''Solar pumps'' \<rparr>"
  note t = merge_keeps_recorded_answers
             [of "Some goalsResponse" "\<lambda>k. 9" answeredSession ?m 1 noInputs ?e]
  have a: "\<not> given (Some goalsResponse) ''problem''"
    by (simp add: given_def goalsResponse_def provides_def trim_def isWhiteSpace_def)
  have b: "given (Some goalsResponse) ''goals''"
    by (simp add: given_def goalsResponse_def provides_def trim_def isWhiteSpace_def)
  have c: "getMessageId ?m 1 \<notin> set (processedMessageIds answeredSession)"
    by (simp add: getMessageId_def humanMessage_def answeredSession_def sampleSession_def)
  have d: "\<not> truthy (title noInputs)"
    by (simp add: noInputs_def truthy_def)
  have e: "truthy (title ?e)"
    by (simp add: truthy_def)
  have f: "map_of (answers (updateSessionFromMessage (Some goalsResponse) (\<lambda>k. 9) answeredSession
                        ?m 1)) ''problem'' = map_of (answers answeredSession) ''problem''"
    using t [THEN conjunct1, rule_format, OF a] by simp
  have g: "\<exists>r t. map_of (answers (updateSessionFromMessage (Some goalsResponse) (\<lambda>k. 9)
                              answeredSession ?m 1)) ''goals'' = Some r
          \<and> timestamps r = priorTimestamps answeredSession ''goals'' @ [t]"
    using t [THEN conjunct2, THEN conjunct1, rule_format, of "''goals''"] b c by blast
  have h: "title (mergeUserInputs ?e noInputs) = title ?e"
    using t [THEN conjunct2, THEN conjunct2, THEN conjunct2, THEN conjunct2, THEN conjunct1] d
    by simp
  show ?thesis using a b c e f g h by simp
qed

section \<open>Readiness\<close>

lemma mergeProjectUserDetails_fields [simp]:
  "readyToGenerate (mergeProjectUserDetails s d) = readyToGenerate s"
  "lastAskedQuestionId (mergeProjectUserDetails s d) = lastAskedQuestionId s"
  "pendingQuestions (mergeProjectUserDetails s d) = pendingQuestions s"
  "answers (mergeProjectUserDetails s d) = answers s"
  "ses_definition (mergeProjectUserDetails s d) = ses_definition s"
  by (simp_all add: mergeProjectUserDetails_def Let_def split: option.splits)

lemma answering_merge [simp]:
  "answering (mergeProjectUserDetails s d) r = answering s r"
  by (simp add: answering_def)

lemma answerAskedQuestion_ready:
  "readyToGenerate (answerAskedQuestion ts c r s) =
     (if answering s r
      then calculateCoverageConfidence (ses_definition s) (answers (answerAskedQuestion ts c r s)) \<ge> 75
           \<or> pendingQuestions (answerAskedQuestion ts c r s) = []
      else readyToGenerate s)"
  by (auto simp: answerAskedQuestion_def answering_def Let_def split: option.splits)

lemma answerAskedQuestion_definition [simp]:
  "ses_definition (answerAskedQuestion ts c r s) = ses_definition s"
  by (simp add: answerAskedQuestion_def Let_def split: option.splits)

lemma process_unfold:
  assumes "getLatestHumanMessage messages = Some m" and "isNew s m"
    and "trim (msg_content m) \<noteq> []"
  shows "processDocSessionMessages ex ts s messages =
     (let c = trim (msg_content m);
          answered = answerAskedQuestion ts c (detectReadyIntent c)
                       (mergeProjectUserDetails (s\<lparr> processedMessageIds := ledgerAfter s m \<rparr>) (ex c))
      in if \<not> readyToGenerate answered \<and> detectReadyIntent c
         then answered\<lparr> readyToGenerate := True \<rparr> else answered)"
  using assms
  by (simp add: processDocSessionMessages_def isNew_def ledgerAfter_def Let_def
           split: option.splits)

lemma answering_ids [simp]: "answering (s\<lparr> processedMessageIds := ids \<rparr>) r = answering s r"
  by (simp add: answering_def)

lemma process_ready:
  assumes "getLatestHumanMessage messages = Some m" and "isNew s m"
    and "trim (msg_content m) \<noteq> []"
  shows "readyToGenerate (processDocSessionMessages ex ts s messages) \<longleftrightarrow>
     detectReadyIntent (trim (msg_content m))
     \<or> (if answering s (detectReadyIntent (trim (msg_content m)))
         then calculateCoverageConfidence (ses_definition s)
                (answers (processDocSessionMessages ex ts s messages)) \<ge> 75
              \<or> pendingQuestions (processDocSessionMessages ex ts s messages) = []
         else readyToGenerate s)"
proof -
  define ids where "ids = ledgerAfter s m"
  have p: "processDocSessionMessages ex ts s messages =
     (let c = trim (msg_content m);
          answered = answerAskedQuestion ts c (detectReadyIntent c)
                       (mergeProjectUserDetails (s\<lparr> processedMessageIds := ids \<rparr>) (ex c))
      in if \<not> readyToGenerate answered \<and> detectReadyIntent c
         then answered\<lparr> readyToGenerate := True \<rparr> else answered)"
    unfolding ids_def by (rule process_unfold [OF assms])
  let ?c = "trim (msg_content m)"
  let ?a = "answerAskedQuestion ts ?c (detectReadyIntent ?c)
              (mergeProjectUserDetails (s\<lparr> processedMessageIds := ids \<rparr>) (ex ?c))"
  have r: "readyToGenerate ?a =
     (if answering s (detectReadyIntent ?c)
      then calculateCoverageConfidence (ses_definition s) (answers ?a) \<ge> 75
           \<or> pendingQuestions ?a = []
      else readyToGenerate s)"
    by (simp add: answerAskedQuestion_ready)
  show ?thesis
  proof (cases "detectReadyIntent ?c")
    case True
    then show ?thesis by (simp add: p Let_def)
  next
    case False
    then have "processDocSessionMessages ex ts s messages = ?a" by (simp add: p Let_def)
    then show ?thesis using False r by simp
  qed
qed

lemma scoreSession_ready:
  "readyToGenerate (scoreSession s) \<longleftrightarrow>
     overall (computeConfidence (ses_definition s) (dossier s) (citations s)) \<ge> 3 / 4
     \<and> missingRequired (computeConfidence (ses_definition s) (dossier s) (citations s)) = []"
  by (simp add: scoreSession_def Let_def)

lemma process_keeps_ready:
  assumes "readyToGenerate s" and "\<not> truthy (lastAskedQuestionId s)"
  shows "readyToGenerate (processDocSessionMessages ex ts s messages)"
  using assms
  by (auto simp: processDocSessionMessages_def answerAskedQuestion_def Let_def
           split: option.splits)

lemma reply_invariant:
  assumes "replyToGeneralInput ex ts (Some s) messages = Some s'" and "readyToGenerate s'"
  shows "lastAskedQuestionId s' = None"
  using assms
  by (auto simp: replyToGeneralInput_def Let_def split: if_splits)

lemma reply_ready:
  assumes "replyToGeneralInput ex ts (Some s) messages = Some s'"
  shows "readyToGenerate s' = readyToGenerate (processDocSessionMessages ex ts s messages)"
  using assms
  by (auto simp: replyToGeneralInput_def Let_def split: if_splits)

lemma lower_hello: "toLowerCase ''hello'' = ''hello''"
  by (simp add: toLowerCase_def toLowerChar_def)

lemma trim_hello: "trim ''hello'' = ''hello''"
  by (simp add: trim_def isWhiteSpace_def)

lemma not_ready_hello: "\<not> detectReadyIntent ''hello''"
  by (simp add: detectReadyIntent_def READY_PATTERNS_def trim_hello lower_hello right_quote_def)

lemma hello_id: "getDeterministicMessageId (humanMessage (Some ''m2'') c) = Some ''m2''"
  by (simp add: getDeterministicMessageId_def humanMessage_def nonBlank_def trim_def isWhiteSpace_def)

lemma latest_single: "getLatestHumanMessage [humanMessage i c] = Some (humanMessage i c)"
  by (simp add: getLatestHumanMessage_def humanMessage_def)

lemma humanMessage_fields:
  "msg_content (humanMessage i c) = c" "msg_id (humanMessage i c) = i"
  "msg_type (humanMessage i c) = human"
  by (simp_all add: humanMessage_def)

lemma lower_ready: "toLowerCase ''we are done, generate the document'' = ''we are done, generate the document''"
  by (simp add: toLowerCase_def toLowerChar_def)

lemma ready_utterance: "detectReadyIntent ''we are done, generate the document''"
  by (simp add: detectReadyIntent_def READY_PATTERNS_def trim_def isWhiteSpace_def lower_ready)

lemma respond_not_ready:
  "\<not> readyToGenerate s \<Longrightarrow>
   map_option readyToGenerate (out_docsState (respondForSession env s)) = Some False"
  by (simp add: respondForSession_def split: list.splits)

lemma respond_ready:
  "readyToGenerate s \<Longrightarrow> out_docsState (respondForSession env s) = None"
  by (simp add: respondForSession_def)

lemma maybeHandle_existing:
  "maybeHandleDocSession env (Some s) messages =
     Inr (Some (respondForSession env (scoreSession (updatedBy env s messages))))"
  by (simp add: maybeHandleDocSession_def updatedBy_def Let_def)

text \<open>
  C1, as the code has it. A session without pending questions that receives a message
  which is no readiness utterance stays not ready: having no pending question left does
  not by itself make the conversational update set \<open>readyToGenerate\<close>.
\<close>

theorem not_ready_without_pending_questions:
  "pendingQuestions (processDocSessionMessages (\<lambda>c. None) 0 idleSession
                       [humanMessage (Some ''m2'') ''hello'']) = []
   \<and> \<not> detectReadyIntent ''hello''
   \<and> \<not> readyToGenerate (processDocSessionMessages (\<lambda>c. None) 0 idleSession
                             [humanMessage (Some ''m2'') ''hello''])"
  by (simp add: processDocSessionMessages_def latest_single hello_id humanMessage_fields
        idleSession_def sampleSession_def trim_hello not_ready_hello
        mergeProjectUserDetails_def answerAskedQuestion_def truthy_def Let_def)

text \<open>
  C1, amended. In the conversational update (\<open>processDocSessionMessages\<close>), for a new
  message with text, \<open>readyToGenerate\<close> is true afterwards exactly when the message is a
  readiness utterance, or, if the message is taken as the answer to the question asked
  last, when the coverage confidence (the rounded percentage of required fields with an
  answer) is at least 75 or no pending question is left, or, if it is not taken as such
  an answer, when the session was ready before. In the artifact path
  (\<open>maybeHandleDocSession\<close>) readiness is recomputed on every call: the session is ready,
  and the artifact is produced, exactly when the overall confidence is at least 0.75
  and no required field is missing.
\<close>

theorem readiness_after_update:
  "(getLatestHumanMessage messages = Some m \<and> isNew s m \<and> trim (msg_content m) \<noteq> [] \<longrightarrow>
      (readyToGenerate (processDocSessionMessages ex ts s messages) \<longleftrightarrow>
         detectReadyIntent (trim (msg_content m))
         \<or> (if answering s (detectReadyIntent (trim (msg_content m)))
             then calculateCoverageConfidence (ses_definition s)
                    (answers (processDocSessionMessages ex ts s messages)) \<ge> 75
                  \<or> pendingQuestions (processDocSessionMessages ex ts s messages) = []
             else readyToGenerate s)))
   \<and> (readyToGenerate (scoreSession s') \<longleftrightarrow>
        overall (computeConfidence (ses_definition s') (dossier s') (citations s')) \<ge> 3 / 4
        \<and> missingRequired (computeConfidence (ses_definition s') (dossier s') (citations s')) = [])
   \<and> (\<exists>out. maybeHandleDocSession env (Some s) messages = Inr (Some out)
          \<and> (out_artifact out \<noteq> None \<longleftrightarrow> readyToGenerate (scoreSession (updatedBy env s messages)))
          \<and> (out_docsState out = None \<longleftrightarrow> readyToGenerate (scoreSession (updatedBy env s messages))))"
proof -
  have A: "getLatestHumanMessage messages = Some m \<and> isNew s m \<and> trim (msg_content m) \<noteq> [] \<longrightarrow>
      (readyToGenerate (processDocSessionMessages ex ts s messages) \<longleftrightarrow>
         detectReadyIntent (trim (msg_content m))
         \<or> (if answering s (detectReadyIntent (trim (msg_content m)))
             then calculateCoverageConfidence (ses_definition s)
                    (answers (processDocSessionMessages ex ts s messages)) \<ge> 75
                  \<or> pendingQuestions (processDocSessionMessages ex ts s messages) = []
             else readyToGenerate s))"
    using process_ready [of messages m s ex ts] by blast
  have B: "readyToGenerate (scoreSession s') \<longleftrightarrow>
        overall (computeConfidence (ses_definition s') (dossier s') (citations s')) \<ge> 3 / 4
        \<and> missingRequired (computeConfidence (ses_definition s') (dossier s') (citations s')) = []"
    by (rule scoreSession_ready)
  let ?x = "scoreSession (updatedBy env s messages)"
  have C1: "out_artifact (respondForSession env ?x) \<noteq> None \<longleftrightarrow> readyToGenerate ?x"
    by (simp add: respondForSession_def split: list.splits)
  have C2: "out_docsState (respondForSession env ?x) = None \<longleftrightarrow> readyToGenerate ?x"
    by (simp add: respondForSession_def split: list.splits)
  have C: "\<exists>out. maybeHandleDocSession env (Some s) messages = Inr (Some out)
          \<and> (out_artifact out \<noteq> None \<longleftrightarrow> readyToGenerate ?x)
          \<and> (out_docsState out = None \<longleftrightarrow> readyToGenerate ?x)"
    using C1 C2 by (simp add: maybeHandle_existing)
  show ?thesis using A B C by (intro conjI)
qed

theorem readiness_after_update_witness:
  "getLatestHumanMessage [humanMessage (Some ''m2'') ''hello''] = Some (humanMessage (Some ''m2'') ''hello'')
   \<and> isNew askedSession (humanMessage (Some ''m2'') ''hello'')
   \<and> trim (msg_content (humanMessage (Some ''m2'') ''hello'')) \<noteq> []
   \<and> answering askedSession False
   \<and> readyToGenerate (processDocSessionMessages (\<lambda>c. None) 7 askedSession
                        [humanMessage (Some ''m2'') ''hello''])
       = (calculateCoverageConfidence (ses_definition askedSession)
            (answers (processDocSessionMessages (\<lambda>c. None) 7 askedSession
                        [humanMessage (Some ''m2'') ''hello''])) \<ge> 75
          \<or> pendingQuestions (processDocSessionMessages (\<lambda>c. None) 7 askedSession
                        [humanMessage (Some ''m2'') ''hello'']) = [])
   \<and> calculateCoverageConfidence (ses_definition askedSession)
            (answers (processDocSessionMessages (\<lambda>c. None) 7 askedSession
                        [humanMessage (Some ''m2'') ''hello''])) = 50"
proof -
  let ?m = "humanMessage (Some ''m2'') ''hello''"
  let ?p = "processDocSessionMessages (\<lambda>c. None) 7 askedSession [?m]"
  have a: "getLatestHumanMessage [?m] = Some ?m" by (rule latest_single)
  have b: "isNew askedSession ?m"
    by (simp add: isNew_def hello_id askedSession_def sampleSession_def)
  have c: "trim (msg_content ?m) \<noteq> []"
    by (simp add: humanMessage_fields trim_hello)
  have d: "answering askedSession False"
    by (simp add: answering_def askedSession_def sampleSession_def truthy_def)
  have e: "readyToGenerate ?p =
       (calculateCoverageConfidence (ses_definition askedSession) (answers ?p) \<ge> 75
        \<or> pendingQuestions ?p = [])"
    using readiness_after_update [of "[?m]" ?m askedSession "\<lambda>c. None" 7, THEN conjunct1] a b c d
    by (simp add: humanMessage_fields trim_hello not_ready_hello)
  have ans: "answers ?p =
      [(''problem'', \<lparr> fieldId = ''problem'', ans_value = ''hello'', ans_source = user,
                       ans_confidence = 7 / 10, timestamps = [7] \<rparr>)]"
    unfolding process_unfold [OF a b c]
    by (simp add: humanMessage_fields trim_hello not_ready_hello
          Let_def mergeProjectUserDetails_def answerAskedQuestion_def askedSession_def
          sampleSession_def truthy_def recordTarget_def)
  have f: "calculateCoverageConfidence (ses_definition askedSession) (answers ?p) = 50"
    unfolding ans
    by (simp add: calculateCoverageConfidence_def askedSession_def sampleSession_def
          twoFieldDefinition_def mkDefinition_def mkField_def nonBlank_def trim_hello
          mathRound_def Let_def floor_eq_iff)
  show ?thesis using a b c d e f by blast
qed

text \<open>
  C2, as the code has it. The artifact path overwrites \<open>readyToGenerate\<close> with the freshly
  computed value: a session that was ready (after a readiness utterance, with nothing
  answered) comes back from \<open>maybeHandleDocSession\<close> not ready.
\<close>

theorem ready_session_becomes_not_ready:
  "readyToGenerate readySession
   \<and> (case maybeHandleDocSession sampleEnv (Some readySession)
              [humanMessage (Some ''m2'') ''hello''] of
        Inr (Some out) \<Rightarrow> map_option readyToGenerate (out_docsState out) = Some False
      | _ \<Rightarrow> False)"
proof -
  let ?m = "humanMessage (Some ''m2'') ''hello''"
  let ?u = "updatedBy sampleEnv readySession [?m]"
  have r: "readyToGenerate readySession" by (simp add: readySession_def)
  have d: "dossier ?u = []" "ses_definition ?u = twoFieldDefinition"
    by (simp_all add: updatedBy_def latest_single updateSessionFromMessage_def sampleEnv_def
          readySession_def sampleSession_def getMessageId_def humanMessage_fields Let_def)
  have "missingRequired (computeConfidence (ses_definition ?u) (dossier ?u) (citations ?u)) \<noteq> []"
    by (simp add: d missingRequired_eq twoFieldDefinition_def mkDefinition_def filled_def
          nonBlank_def)
  then have "\<not> readyToGenerate (scoreSession ?u)"
    by (simp add: scoreSession_ready)
  then have "map_option readyToGenerate (out_docsState (respondForSession sampleEnv (scoreSession ?u)))
             = Some False"
    by (rule respond_not_ready)
  then show ?thesis
    using r by (simp add: maybeHandle_existing)
qed

text \<open>
  C2, amended. In the conversational path readiness is kept: a ready session with no
  asked question outstanding stays ready through \<open>processDocSessionMessages\<close>; every ready
  session \<open>replyToGeneralInput\<close> returns has no asked question outstanding; hence once
  \<open>replyToGeneralInput\<close> has returned a ready session, handing that session to it again,
  with any messages, returns a ready session.
\<close>

theorem readiness_kept_in_conversation:
  "(readyToGenerate s \<and> \<not> truthy (lastAskedQuestionId s) \<longrightarrow>
      readyToGenerate (processDocSessionMessages ex ts s messages))
   \<and> (replyToGeneralInput ex ts (Some s) messages = Some s1 \<and> readyToGenerate s1 \<longrightarrow>
        lastAskedQuestionId s1 = None)
   \<and> (replyToGeneralInput ex ts (Some s) messages = Some s1 \<and> readyToGenerate s1
        \<and> replyToGeneralInput ex' ts' (Some s1) messages' = Some s2 \<longrightarrow>
        readyToGenerate s2)"
proof -
  have A: "readyToGenerate s \<and> \<not> truthy (lastAskedQuestionId s) \<longrightarrow>
      readyToGenerate (processDocSessionMessages ex ts s messages)"
    using process_keeps_ready by blast
  have B: "replyToGeneralInput ex ts (Some s) messages = Some s1 \<and> readyToGenerate s1 \<longrightarrow>
        lastAskedQuestionId s1 = None"
    using reply_invariant by blast
  have C: "readyToGenerate s2"
    if h: "replyToGeneralInput ex ts (Some s) messages = Some s1" "readyToGenerate s1"
      "replyToGeneralInput ex' ts' (Some s1) messages' = Some s2"
  proof -
    have "lastAskedQuestionId s1 = None" using h(1,2) by (rule reply_invariant)
    then have "\<not> truthy (lastAskedQuestionId s1)" by (simp add: truthy_def)
    then have "readyToGenerate (processDocSessionMessages ex' ts' s1 messages')"
      using h(2) by (intro process_keeps_ready)
    then show ?thesis using reply_ready [OF h(3)] by simp
  qed
  show ?thesis using A B C by blast
qed

theorem readiness_kept_in_conversation_witness:
  "readyToGenerate readySession
   \<and> \<not> truthy (lastAskedQuestionId readySession)
   \<and> readyToGenerate (processDocSessionMessages (\<lambda>c. None) 0 readySession
                        [humanMessage (Some ''m2'') ''hello''])"
proof -
  have a: "readyToGenerate readySession" by (simp add: readySession_def)
  have b: "\<not> truthy (lastAskedQuestionId readySession)"
    by (simp add: readySession_def sampleSession_def truthy_def)
  have "readyToGenerate (processDocSessionMessages (\<lambda>c. None) 0 readySession
                        [humanMessage (Some ''m2'') ''hello''])"
    using readiness_kept_in_conversation
            [of readySession "\<lambda>c. None" 0 "[humanMessage (Some ''m2'') ''hello'']",
             THEN conjunct1] a b
    by blast
  then show ?thesis using a b by blast
qed

section \<open>Blueprint intake: assumption injection\<close>

lemma blueprint_fields: "map bp_field CLARITY_BLUEPRINT = blueprintFields"
  by (simp add: CLARITY_BLUEPRINT_def blueprintFields_def)

lemma blueprint_needs:
  "\<forall>e \<in> set CLARITY_BLUEPRINT. followUpNeeded e = needs (bp_field e)"
  by (simp add: CLARITY_BLUEPRINT_def needs_def fun_eq_iff)

lemma needs_frame:
  "g \<noteq> f \<Longrightarrow> needs g (snd (applyAssumptionForField f i)) = needs g i"
  by (cases f; cases g; simp add: needs_def applyAssumptionForField_def Let_def)

lemma value_frame:
  "g \<noteq> f \<Longrightarrow> fieldValue g (snd (applyAssumptionForField f i)) = fieldValue g i"
  by (cases f; cases g; simp add: fieldValue_def applyAssumptionForField_def Let_def)

lemma trim_keeps_initiative: "\<exists>q. trim (p @ '' Initiative'') = q @ ''Initiative''"
proof -
  let ?d = "dropWhile isWhiteSpace"
  have nI: "\<not> isWhiteSpace CHR ''I''" and ne: "\<not> isWhiteSpace CHR ''e''"
    by (simp_all add: isWhiteSpace_def)
  have "p @ '' Initiative'' = (p @ '' '') @ ''Initiative''" by simp
  then have "\<exists>q. ?d (p @ '' Initiative'') = q @ ''Initiative''"
    using nI by (simp only: dropWhile_append) auto
  then obtain q where q: "?d (p @ '' Initiative'') = q @ ''Initiative''" by blast
  have "rev (q @ ''Initiative'') = CHR ''e'' # (''vitaitinI'' @ rev q)" by simp
  then have "?d (rev (q @ ''Initiative'')) = rev (q @ ''Initiative'')"
    using ne by (simp only: dropWhile.simps) simp
  then have "trim (p @ '' Initiative'') = q @ ''Initiative''"
    by (simp only: trim_def q rev_rev_ident)
  then show ?thesis by blast
qed

lemma lower_initiative: "toLowerCase (q @ ''Initiative'') = toLowerCase q @ ''initiative''"
  by (simp add: toLowerCase_def toLowerChar_def char_of_def bit_Suc_0_iff)

lemma not_generic_initiative: "\<not> isGenericTitle (Some (p @ '' Initiative''))"
proof -
  obtain q where q: "trim (p @ '' Initiative'') = q @ ''Initiative''"
    using trim_keeps_initiative by blast
  let ?n = "toLowerCase q @ ''initiative''"
  have r: "rev ?n = ''evitaitini'' @ rev (toLowerCase q)" by simp
  have len: "\<not> length ?n \<le> 6" by simp
  have "rev ?n \<noteq> rev s"
    if "s \<in> set [''concept note'', ''project concept'', ''project proposal'',
                  ''concept paper'', ''proposal'']" for s
    using that unfolding r by auto
  then have notin: "?n \<notin> set [''concept note'', ''project concept'', ''project proposal'',
                               ''concept paper'', ''proposal'']"
    by blast
  show ?thesis
    using len notin by (simp add: isGenericTitle_def q lower_initiative Let_def)
qed

lemma suggested_title_form:
  "needs F_title i \<Longrightarrow> \<exists>p. suggestWorkingTitle i = p @ '' Initiative''"
proof -
  assume n: "needs F_title i"
  then have g: "\<not> (truthy (title i) \<and> \<not> isGenericTitle (title i))"
    by (simp add: needs_def)
  have a: "a @ '' Concept Initiative'' = (a @ '' Concept'') @ '' Initiative''" for a :: string
    by simp
  have b: "''Strategic Concept Note Initiative'' = ''Strategic Concept Note'' @ '' Initiative''"
    by simp
  show ?thesis
    using g unfolding suggestWorkingTitle_def Let_def
    by (auto split: option.splits intro: a b)
qed

lemma title_default_ok:
  assumes "needs F_title i"
  shows "suggestWorkingTitle i \<noteq> []" and "\<not> isGenericTitle (Some (suggestWorkingTitle i))"
proof -
  obtain p where p: "suggestWorkingTitle i = p @ '' Initiative''"
    using suggested_title_form [OF assms] by blast
  show "suggestWorkingTitle i \<noteq> []" by (simp add: p)
  show "\<not> isGenericTitle (Some (suggestWorkingTitle i))"
    by (simp only: p not_generic_initiative not_False_eq_True)
qed

lemma apply_ok:
  "needs f i \<Longrightarrow> fst (applyAssumptionForField f i) = defaultable f"
  by (cases f)
     (simp_all add: needs_def applyAssumptionForField_def Let_def defaultable_def
        blueprintFields_def title_default_ok [unfolded needs_def])

lemma apply_settles:
  "needs f i \<Longrightarrow> defaultable f \<Longrightarrow> \<not> needs f (snd (applyAssumptionForField f i))"
  by (cases f)
     (simp_all add: needs_def applyAssumptionForField_def Let_def defaultable_def
        blueprintFields_def title_default_ok [unfolded needs_def] truthy_def emptyList_def
        suggestObjectives_def)

lemma apply_value:
  "needs f i \<Longrightarrow> defaultable f \<Longrightarrow>
   fieldValue f (snd (applyAssumptionForField f i)) = Some (documentedDefault f i)"
  by (cases f)
     (simp_all add: needs_def applyAssumptionForField_def Let_def defaultable_def
        blueprintFields_def title_default_ok [unfolded needs_def] fieldValue_def
        documentedDefault_def)

lemma apply_undefaultable:
  "\<not> defaultable f \<Longrightarrow> needs f i \<Longrightarrow> snd (applyAssumptionForField f i) = i"
  by (cases f)
     (simp_all add: needs_def applyAssumptionForField_def defaultable_def blueprintFields_def)

lemma fill_needs:
  "needs g (fill f i) = (if g = f \<and> defaultable f then False else needs g i)"
proof (cases "g = f")
  case False
  then show ?thesis by (simp add: fill_def needs_frame)
next
  case True
  show ?thesis
  proof (cases "defaultable f")
    case d: True
    then show ?thesis using True by (simp add: fill_def apply_settles)
  next
    case d: False
    then show ?thesis using True by (simp add: fill_def apply_undefaultable)
  qed
qed

lemma fill_value:
  "fieldValue g (fill f i) =
     (if g = f \<and> defaultable f \<and> needs f i then Some (documentedDefault f i)
      else fieldValue g i)"
proof (cases "g = f")
  case False
  then show ?thesis by (simp add: fill_def value_frame)
next
  case True
  show ?thesis
  proof (cases "defaultable f")
    case d: True
    then show ?thesis using True by (simp add: fill_def apply_value)
  next
    case d: False
    then show ?thesis using True by (simp add: fill_def apply_undefaultable)
  qed
qed

lemma fill_suggestObjectives:
  "f \<noteq> F_targetAudience \<Longrightarrow> suggestObjectives (fill f i) = suggestObjectives i"
  by (cases f) (simp_all add: fill_def suggestObjectives_def applyAssumptionForField_def Let_def)

lemma assumeEntry_snd:
  "followUpNeeded e = needs (bp_field e) \<Longrightarrow> snd (assumeEntry (A, i) e) = fill (bp_field e) i"
  by (simp add: assumeEntry_def fill_def split: prod.splits)

lemma assumeEntry_fst:
  "followUpNeeded e = needs (bp_field e) \<Longrightarrow>
   set (fst (assumeEntry (A, i) e)) =
     (if needs (bp_field e) i \<and> defaultable (bp_field e) then insert (bp_field e) (set A)
      else set A)"
  using apply_ok [of "bp_field e" i]
  by (auto simp: assumeEntry_def split: prod.splits)

lemma assume_fold_snd:
  "\<forall>e \<in> set es. followUpNeeded e = needs (bp_field e) \<Longrightarrow>
   snd (foldl assumeEntry (A, i) es) = foldl (\<lambda>j f. fill f j) i (map bp_field es)"
proof (induction es arbitrary: A i)
  case Nil
  then show ?case by simp
next
  case (Cons e es)
  have e: "followUpNeeded e = needs (bp_field e)" using Cons.prems by simp
  have step: "assumeEntry (A, i) e = (fst (assumeEntry (A, i) e), fill (bp_field e) i)"
    using assumeEntry_snd [OF e, of A i] by (metis prod.collapse)
  have "foldl assumeEntry (A, i) (e # es)
        = foldl assumeEntry (fst (assumeEntry (A, i) e), fill (bp_field e) i) es"
    by (subst foldl_Cons, subst step, rule refl)
  moreover have "\<forall>e \<in> set es. followUpNeeded e = needs (bp_field e)"
    using Cons.prems by simp
  ultimately show ?case using Cons.IH by simp
qed

lemma assume_fold_fst:
  "\<forall>e \<in> set es. followUpNeeded e = needs (bp_field e) \<Longrightarrow> distinct (map bp_field es) \<Longrightarrow>
   set (fst (foldl assumeEntry (A, i) es)) =
     set A \<union> {f \<in> bp_field ` set es. defaultable f \<and> needs f i}"
proof (induction es arbitrary: A i)
  case Nil
  then show ?case by simp
next
  case (Cons e es)
  have e: "followUpNeeded e = needs (bp_field e)" using Cons.prems by simp
  let ?A = "fst (assumeEntry (A, i) e)" and ?i = "fill (bp_field e) i"
  have step: "assumeEntry (A, i) e = (?A, ?i)"
    using assumeEntry_snd [OF e, of A i] by (metis prod.collapse)
  have others: "needs f ?i = needs f i" if "f \<in> bp_field ` set es" for f
  proof -
    have "bp_field e \<notin> bp_field ` set es" using Cons.prems(2) by simp
    then have "f \<noteq> bp_field e" using that by blast
    then show ?thesis by (simp add: fill_needs)
  qed
  have "set (fst (foldl assumeEntry (?A, ?i) es)) =
        set ?A \<union> {f \<in> bp_field ` set es. defaultable f \<and> needs f ?i}"
    using Cons.prems by (intro Cons.IH) simp_all
  also have "\<dots> = set ?A \<union> {f \<in> bp_field ` set es. defaultable f \<and> needs f i}"
    using others by auto
  finally have rest: "set (fst (foldl assumeEntry (?A, ?i) es)) =
        set ?A \<union> {f \<in> bp_field ` set es. defaultable f \<and> needs f i}" .
  have unfold: "foldl assumeEntry (A, i) (e # es) = foldl assumeEntry (?A, ?i) es"
    by (subst foldl_Cons, subst step, rule refl)
  show ?case
    unfolding unfold rest using assumeEntry_fst [OF e, of A i] by auto
qed

lemma assumed_inputs:
  "snd (applyAssumptionsIfRequested i) =
     fill F_keyPartners (fill F_successMetrics (fill F_keyChallenges (fill F_keyActivities
       (fill F_scope (fill F_budget (fill F_timeline (fill F_targetAudience
         (fill F_objectives (fill F_description (fill F_title i))))))))))"
  unfolding applyAssumptionsIfRequested_def
  by (simp only: assume_fold_snd [OF blueprint_needs] blueprint_fields)
     (simp add: blueprintFields_def)

lemma assumed_fields:
  "set (fst (applyAssumptionsIfRequested i)) = {f. defaultable f \<and> needs f i}"
proof -
  have d: "distinct (map bp_field CLARITY_BLUEPRINT)"
    by (simp add: blueprint_fields blueprintFields_def)
  have "set (fst (applyAssumptionsIfRequested i)) =
        {f \<in> bp_field ` set CLARITY_BLUEPRINT. defaultable f \<and> needs f i}"
    unfolding applyAssumptionsIfRequested_def
    using assume_fold_fst [OF blueprint_needs d, of "[]" i] by simp
  moreover have "bp_field ` set CLARITY_BLUEPRINT = set blueprintFields"
    using blueprint_fields by (metis set_map)
  ultimately show ?thesis by (auto simp: defaultable_def)
qed

lemma after_needs:
  "g \<in> set blueprintFields \<Longrightarrow>
   needs g (snd (applyAssumptionsIfRequested i)) = (g = F_description \<and> needs F_description i)"
  by (auto simp: assumed_inputs fill_needs defaultable_def blueprintFields_def)

lemma after_values:
  "defaultable g \<Longrightarrow> needs g i \<Longrightarrow>
   fieldValue g (snd (applyAssumptionsIfRequested i)) = Some (documentedDefault g i)"
  by (auto simp: assumed_inputs fill_value fill_needs defaultable_def blueprintFields_def
        documentedDefault_def fill_suggestObjectives)

lemma after_values_kept:
  "\<not> (defaultable g \<and> needs g i) \<Longrightarrow>
   fieldValue g (snd (applyAssumptionsIfRequested i)) = fieldValue g i"
  by (cases g) (auto simp: assumed_inputs fill_value fill_needs defaultable_def blueprintFields_def)

section \<open>Blueprint intake: the questions after assumption injection\<close>

lemma foldl_invariant:
  "P m0 \<Longrightarrow> (\<And>m x. P m \<Longrightarrow> P (step m x)) \<Longrightarrow> P (foldl step m0 xs)"
  by (induction xs arbitrary: m0) auto

lemma set_update_subset: "set (AList.update k v m) \<subseteq> insert (k, v) (set m)"
  by (induction m) auto

lemma keyed_update:
  "keyed m \<Longrightarrow> cq_field q = k \<Longrightarrow> keyed (AList.update k q m)"
  using set_update_subset [of k q m] by (auto simp: keyed_def list_all_iff)

lemma keyed_lookup: "keyed m \<Longrightarrow> map_of m k = Some q \<Longrightarrow> cq_field q = k"
proof -
  assume k: "keyed m" and "map_of m k = Some q"
  then have "(k, q) \<in> set m" by (intro map_of_SomeD)
  then show ?thesis using k by (fastforce simp: keyed_def list_all_iff)
qed

lemma trackEntry_keyed:
  "keyed m \<Longrightarrow> keyed (trackEntry i A now uuid m e)"
  by (auto simp: trackEntry_def Let_def intro!: keyed_update dest: keyed_lookup
           split: option.splits)

lemma trackEntry_distinct:
  "distinct (map fst m) \<Longrightarrow> distinct (map fst (trackEntry i A now uuid m e))"
  by (auto simp: trackEntry_def Let_def distinct_update split: option.splits)

lemma track_other:
  "k \<noteq> bp_field e \<Longrightarrow> map_of (trackEntry i A now uuid m e) k = map_of m k"
  by (auto simp: trackEntry_def Let_def update_conv' split: option.splits)

lemma track_settled:
  "\<not> followUpNeeded e i \<Longrightarrow>
   map_of (trackEntry i A now uuid m e) (bp_field e) =
     map_option (\<lambda>ex. ex\<lparr> cq_status := (if bp_field e \<in> set A then assumed else answered) \<rparr>)
       (map_of m (bp_field e))"
  by (auto simp: trackEntry_def Let_def update_conv' split: option.splits)

lemma track_pending:
  "followUpNeeded e i \<Longrightarrow>
   \<exists>q. map_of (trackEntry i A now uuid m e) (bp_field e) = Some q \<and> cq_status q = pending"
  by (auto simp: trackEntry_def Let_def update_conv' split: option.splits)

lemma track_depends_on_key:
  "map_of m (bp_field e) = map_of m' (bp_field e) \<Longrightarrow>
   map_of (trackEntry i A now uuid m e) (bp_field e)
     = map_of (trackEntry i A now uuid m' e) (bp_field e)"
  by (auto simp: trackEntry_def Let_def update_conv' split: option.splits)

lemma fold_track_lookup:
  "distinct (map bp_field es) \<Longrightarrow>
   map_of (foldl (trackEntry i A now uuid) m es) k =
     (case find (\<lambda>e. bp_field e = k) es of
        None \<Rightarrow> map_of m k
      | Some e \<Rightarrow> map_of (trackEntry i A now uuid m e) k)"
proof (induction es arbitrary: m)
  case Nil
  then show ?case by simp
next
  case (Cons e es)
  let ?t = "trackEntry i A now uuid"
  have d: "distinct (map bp_field es)" and notin: "bp_field e \<notin> bp_field ` set es"
    using Cons.prems by simp_all
  have ih: "map_of (foldl ?t (?t m e) es) k =
     (case find (\<lambda>e. bp_field e = k) es of
        None \<Rightarrow> map_of (?t m e) k
      | Some e' \<Rightarrow> map_of (?t (?t m e) e') k)"
    by (rule Cons.IH [OF d])
  show ?case
  proof (cases "bp_field e = k")
    case True
    have "\<forall>x \<in> set es. bp_field x \<noteq> k" using notin True by blast
    then have "find (\<lambda>e. bp_field e = k) es = None"
      by (simp add: find_None_iff)
    then show ?thesis using True ih by simp
  next
    case False
    show ?thesis
    proof (cases "find (\<lambda>e. bp_field e = k) es")
      case None
      then show ?thesis using False ih by (simp add: track_other)
    next
      case (Some e')
      then have k: "bp_field e' = k" by (auto simp: find_Some_iff)
      have "map_of (?t m e) (bp_field e') = map_of m (bp_field e')"
        using False k by (simp add: track_other)
      then have "map_of (?t (?t m e) e') (bp_field e') = map_of (?t m e') (bp_field e')"
        by (rule track_depends_on_key)
      then show ?thesis using False Some ih k by simp
    qed
  qed
qed

lemma lookup_blueprint_None:
  "map_of BLUEPRINT_LOOKUP f = None \<longleftrightarrow> f \<notin> set blueprintFields"
proof -
  have "map_of BLUEPRINT_LOOKUP f = None \<longleftrightarrow> f \<notin> bp_field ` set CLARITY_BLUEPRINT"
    by (simp add: BLUEPRINT_LOOKUP_def map_of_newMap map_of_eq_None_iff image_image)
  moreover have "bp_field ` set CLARITY_BLUEPRINT = set blueprintFields"
    using blueprint_fields by (metis set_map)
  ultimately show ?thesis by simp
qed

lemma lookup_description:
  "\<exists>e. map_of BLUEPRINT_LOOKUP F_description = Some e \<and> bp_required e"
  by (simp add: BLUEPRINT_LOOKUP_def newMap_def CLARITY_BLUEPRINT_def)

lemma find_blueprint:
  "f \<in> set blueprintFields \<Longrightarrow>
   \<exists>e \<in> set CLARITY_BLUEPRINT. find (\<lambda>e. bp_field e = f) CLARITY_BLUEPRINT = Some e \<and> bp_field e = f"
proof -
  assume "f \<in> set blueprintFields"
  then have "f \<in> bp_field ` set CLARITY_BLUEPRINT"
    using blueprint_fields by (metis set_map)
  then have "find (\<lambda>e. bp_field e = f) CLARITY_BLUEPRINT \<noteq> None"
    by (auto simp: find_None_iff)
  then obtain e where e: "find (\<lambda>e. bp_field e = f) CLARITY_BLUEPRINT = Some e" by auto
  then have "e \<in> set CLARITY_BLUEPRINT \<and> bp_field e = f"
    by (auto simp: find_Some_iff in_set_conv_nth)
  then show ?thesis using e by blast
qed

lemma filter_by_key:
  "distinct (map fst m) \<Longrightarrow> keyed m \<Longrightarrow>
   filter (\<lambda>q. cq_field q = k \<and> P q) (map snd m) =
     (case map_of m k of None \<Rightarrow> [] | Some q \<Rightarrow> if P q then [q] else [])"
proof (induction m)
  case Nil
  then show ?case by simp
next
  case (Cons a m)
  obtain k' q' where a: "a = (k', q')" by (cases a)
  have kq: "cq_field q' = k'" and km: "keyed m"
    using Cons.prems(2) by (simp_all add: keyed_def a)
  have d: "distinct (map fst m)" and notin: "k' \<notin> fst ` set m"
    using Cons.prems(1) by (simp_all add: a)
  note ih = Cons.IH [OF d km]
  show ?case
  proof (cases "k' = k")
    case True
    then have "map_of m k = None" using notin by (simp add: map_of_eq_None_iff)
    then show ?thesis using True kq ih by (simp add: a)
  next
    case False
    then show ?thesis using kq ih by (simp add: a)
  qed
qed

lemma mset_insertBy: "mset (insertBy le x xs) = add_mset x (mset xs)"
  by (induction xs) auto

lemma mset_sortBy: "mset (sortBy le xs) = mset xs"
  by (induction xs) (auto simp: sortBy_def mset_insertBy)

lemma set_sortBy: "set (sortBy le xs) = set xs"
  by (metis mset_sortBy set_mset_mset)

lemma filter_sortBy_short:
  assumes "length (filter P xs) \<le> 1"
  shows "filter P (sortBy le xs) = filter P xs"
proof -
  have m: "mset (filter P (sortBy le xs)) = mset (filter P xs)"
    by (simp add: mset_sortBy)
  show ?thesis
  proof (cases "filter P xs")
    case Nil
    then show ?thesis using m by simp
  next
    case (Cons y ys)
    then have "ys = []" using assms by simp
    then have "mset (filter P (sortBy le xs)) = {#y#}" using m Cons by simp
    then have "filter P (sortBy le xs) = [y]" by (simp only: mset_single_iff)
    then show ?thesis using Cons \<open>ys = []\<close> by simp
  qed
qed

lemma selectQuestions_description_only:
  "\<forall>q \<in> set qs. cq_field q = F_description \<or> map_of BLUEPRINT_LOOKUP (cq_field q) = None \<Longrightarrow>
   length acc + length (filter (\<lambda>q. cq_field q = F_description) qs) < MAX_QUESTIONS_PER_PROMPT \<Longrightarrow>
   selectQuestions now qs acc = acc @ map (bump now) (filter (\<lambda>q. cq_field q = F_description) qs)"
proof (induction qs arbitrary: acc)
  case Nil
  then show ?case by simp
next
  case (Cons q qs)
  obtain e where e: "map_of BLUEPRINT_LOOKUP F_description = Some e" "bp_required e"
    using lookup_description by blast
  have rest: "\<forall>q \<in> set qs. cq_field q = F_description \<or> map_of BLUEPRINT_LOOKUP (cq_field q) = None"
    using Cons.prems(1) by simp
  show ?case
  proof (cases "cq_field q = F_description")
    case True
    let ?acc = "acc @ [bump now q]"
    have len: "length ?acc + length (filter (\<lambda>q. cq_field q = F_description) qs)
               < MAX_QUESTIONS_PER_PROMPT"
      using Cons.prems(2) True by simp
    then have small: "\<not> length ?acc \<ge> MAX_QUESTIONS_PER_PROMPT" by simp
    have "selectQuestions now (q # qs) acc = selectQuestions now qs ?acc"
      using True e small by (simp add: bump_def Let_def)
    then show ?thesis using Cons.IH [OF rest len] True by simp
  next
    case False
    then have none: "map_of BLUEPRINT_LOOKUP (cq_field q) = None"
      using Cons.prems(1) by simp
    have len: "length acc + length (filter (\<lambda>q. cq_field q = F_description) qs)
               < MAX_QUESTIONS_PER_PROMPT"
      using Cons.prems(2) False by simp
    have "selectQuestions now (q # qs) acc = selectQuestions now qs acc"
      using none by simp
    then show ?thesis using Cons.IH [OF rest len] False by simp
  qed
qed

lemma prepare_after_assumptions:
  assumes settled: "\<forall>f \<in> set blueprintFields. f \<noteq> F_description \<longrightarrow> \<not> needs f i"
    and assumedOk: "\<forall>f \<in> set A. defaultable f"
  shows "map cq_field (snd (prepareClarifyingQuestions now uuid qs0 i A))
           = (if needs F_description i then [F_description] else [])"
    and "\<forall>q \<in> set (fst (prepareClarifyingQuestions now uuid qs0 i A)).
           cq_field q \<in> set A \<longrightarrow> cq_status q = assumed"
proof -
  let ?put = "\<lambda>m question. AList.update (cq_field question) question m"
  let ?init = "foldl ?put [] (orEmpty qs0)"
  let ?M = "foldl (trackEntry i A now uuid) ?init CLARITY_BLUEPRINT"
  let ?pend = "filter (\<lambda>question. cq_status question = pending) (map snd ?M)"
  let ?sorted = "sortBy byBlueprintOrder ?pend"
  let ?asked = "selectQuestions now ?sorted []"
  let ?final = "foldl ?put ?M ?asked"
  let ?isD = "\<lambda>q. cq_field q = F_description"
  have prep: "prepareClarifyingQuestions now uuid qs0 i A = (map snd ?final, ?asked)"
    by (simp add: prepareClarifyingQuestions_def Let_def)
  have put_ok: "distinct (map fst (?put m q)) \<and> keyed (?put m q)"
    if "distinct (map fst m) \<and> keyed m" for m q
    using that by (simp add: distinct_update keyed_update)
  have empty_ok: "distinct (map fst ([] :: (InputField \<times> ClarifyingQuestion) list))
                  \<and> keyed []"
    by (simp add: keyed_def)
  have init_ok: "distinct (map fst ?init) \<and> keyed ?init"
    using empty_ok put_ok
    by (rule foldl_invariant [where P = "\<lambda>m. distinct (map fst m) \<and> keyed m"])
  have M_ok: "distinct (map fst ?M) \<and> keyed ?M"
    by (rule foldl_invariant [where P = "\<lambda>m. distinct (map fst m) \<and> keyed m"])
       (simp_all add: init_ok trackEntry_distinct trackEntry_keyed)
  have final_ok: "distinct (map fst ?final) \<and> keyed ?final"
    using M_ok put_ok
    by (rule foldl_invariant [where P = "\<lambda>m. distinct (map fst m) \<and> keyed m"])
  have dBP: "distinct (map bp_field CLARITY_BLUEPRINT)"
    by (simp add: blueprint_fields blueprintFields_def)
  have lookupM: "\<exists>e \<in> set CLARITY_BLUEPRINT. bp_field e = f
                   \<and> map_of ?M f = map_of (trackEntry i A now uuid ?init e) f"
    if fin: "f \<in> set blueprintFields" for f
  proof -
    obtain e where e: "e \<in> set CLARITY_BLUEPRINT"
        "find (\<lambda>e. bp_field e = f) CLARITY_BLUEPRINT = Some e" "bp_field e = f"
      using find_blueprint [OF fin] by blast
    have "map_of ?M f = map_of (trackEntry i A now uuid ?init e) f"
      by (simp add: fold_track_lookup [OF dBP] e(2))
    then show ?thesis using e by blast
  qed
  have settledM: "cq_status q = (if f \<in> set A then assumed else answered)"
    if fin: "f \<in> set blueprintFields" and nn: "\<not> needs f i"
      and lk: "map_of ?M f = Some q" for f q
  proof -
    obtain e where e: "e \<in> set CLARITY_BLUEPRINT" "bp_field e = f"
        "map_of ?M f = map_of (trackEntry i A now uuid ?init e) f"
      using lookupM [OF fin] by blast
    have ns: "\<not> followUpNeeded e i" using blueprint_needs e(1,2) nn by simp
    have "map_of ?M f = map_option
            (\<lambda>ex. ex\<lparr> cq_status := (if f \<in> set A then assumed else answered) \<rparr>)
            (map_of ?init f)"
      using track_settled [OF ns, of A now uuid ?init] e(2,3) by simp
    then show ?thesis using lk by (cases "map_of ?init f") auto
  qed
  have notPending: "cq_status q \<noteq> pending"
    if "map_of ?M f = Some q" "f \<in> set blueprintFields" "\<not> needs f i" for f q
    using settledM [OF that(2,3,1)] by simp
  have pendOnly: "?isD q \<or> map_of BLUEPRINT_LOOKUP (cq_field q) = None" if qp: "q \<in> set ?pend" for q
  proof -
    from qp obtain k where k: "(k, q) \<in> set ?M" and st: "cq_status q = pending" by auto
    have look: "map_of ?M k = Some q" using k M_ok by simp
    have kf: "cq_field q = k" using look M_ok keyed_lookup by blast
    show ?thesis
    proof (cases "k \<in> set blueprintFields \<and> k \<noteq> F_description")
      case True
      then have "\<not> needs k i" using settled by blast
      then have "cq_status q \<noteq> pending" using notPending look True by blast
      then show ?thesis using st by simp
    next
      case False
      then show ?thesis using kf by (auto simp: lookup_blueprint_None)
    qed
  qed
  have descM: "filter (\<lambda>q. cq_field q = F_description \<and> cq_status q = pending) (map snd ?M) =
        (case map_of ?M F_description of
           None \<Rightarrow> [] | Some q \<Rightarrow> if cq_status q = pending then [q] else [])"
    using M_ok by (intro filter_by_key) simp_all
  have inBP: "F_description \<in> set blueprintFields" by (simp add: blueprintFields_def)
  have descPend: "\<exists>dq. cq_field dq = F_description \<and>
        filter ?isD ?pend = (if needs F_description i then [dq] else [])"
  proof (cases "needs F_description i")
    case True
    obtain e where e: "e \<in> set CLARITY_BLUEPRINT" "bp_field e = F_description"
        "map_of ?M F_description = map_of (trackEntry i A now uuid ?init e) F_description"
      using lookupM [OF inBP] by blast
    have "followUpNeeded e i" using blueprint_needs e(1,2) True by simp
    then obtain q where q: "map_of ?M F_description = Some q" "cq_status q = pending"
      using track_pending [of e i A now uuid ?init] e(2,3) by auto
    have "cq_field q = F_description" using q(1) M_ok keyed_lookup by blast
    moreover have "filter ?isD ?pend = [q]"
      using descM q by (simp add: conj_commute)
    ultimately show ?thesis using True by auto
  next
    case False
    have "filter ?isD ?pend = []"
    proof (cases "map_of ?M F_description")
      case None
      then show ?thesis using descM by (simp add: conj_commute)
    next
      case (Some q)
      then have "cq_status q \<noteq> pending" using notPending inBP False by blast
      then show ?thesis using descM Some by (simp add: conj_commute)
    qed
    then show ?thesis using False by (auto intro: exI [of _ "\<lparr> cq_id = [], cq_field = F_description, cq_question = [],
             cq_rationale = [], cq_required = True, cq_status = pending, timesAsked = 0,
             lastAskedAt = [], cq_assumptionSuggestion = None \<rparr>"])
  qed
  then obtain dq where dq: "cq_field dq = F_description"
      "filter ?isD ?pend = (if needs F_description i then [dq] else [])"
    by blast
  have short: "length (filter ?isD ?pend) \<le> 1" using dq(2) by simp
  have sortedD: "filter ?isD ?sorted = (if needs F_description i then [dq] else [])"
    using filter_sortBy_short [OF short] dq(2) by simp
  have sortedOnly: "\<forall>q \<in> set ?sorted. ?isD q \<or> map_of BLUEPRINT_LOOKUP (cq_field q) = None"
  proof
    fix q
    assume "q \<in> set ?sorted"
    then have "q \<in> set ?pend" by (simp only: set_sortBy)
    then show "?isD q \<or> map_of BLUEPRINT_LOOKUP (cq_field q) = None" by (rule pendOnly)
  qed
  have few: "length ([] :: ClarifyingQuestion list) + length (filter ?isD ?sorted)
             < MAX_QUESTIONS_PER_PROMPT"
    using sortedD by (simp add: MAX_QUESTIONS_PER_PROMPT_def)
  have asked: "?asked = (if needs F_description i then [bump now dq] else [])"
    using selectQuestions_description_only [OF sortedOnly few] sortedD by simp
  show "map cq_field (snd (prepareClarifyingQuestions now uuid qs0 i A))
           = (if needs F_description i then [F_description] else [])"
    unfolding prep using asked dq(1) by (simp add: bump_def)
  show "\<forall>q \<in> set (fst (prepareClarifyingQuestions now uuid qs0 i A)).
           cq_field q \<in> set A \<longrightarrow> cq_status q = assumed"
  proof (intro ballI impI)
    fix q
    assume qin: "q \<in> set (fst (prepareClarifyingQuestions now uuid qs0 i A))"
      and fA: "cq_field q \<in> set A"
    let ?f = "cq_field q"
    from qin obtain k where k: "(k, q) \<in> set ?final" unfolding prep by auto
    have look: "map_of ?final k = Some q" using k final_ok by simp
    have kf: "k = ?f" using look final_ok keyed_lookup by blast
    have fdef: "defaultable ?f" using assumedOk fA by blast
    then have fBP: "?f \<in> set blueprintFields" and fD: "?f \<noteq> F_description"
      by (simp_all add: defaultable_def)
    have "?f \<notin> cq_field ` set ?asked" using asked dq(1) fD by (auto simp: bump_def)
    then have "map_of ?final ?f = map_of ?M ?f"
      by (rule foldl_update_other [where k = cq_field and v = "\<lambda>q. q"])
    then have lookM: "map_of ?M ?f = Some q" using look kf by simp
    have "\<not> needs ?f i" using settled fBP fD by blast
    then show "cq_status q = assumed" using settledM [OF fBP _ lookM] fA by simp
  qed
qed

lemma intake_unfold:
  assumes "getLatestHumanMessage (in_messages st) = Some m"
    and "didUserRequestAssumptions (msg_content m)"
  shows "ret_userInputs (userIntakeNode ex now uuid st)
           = Some (snd (applyAssumptionsIfRequested (mergedInputs ex st m)))"
    and "ret_clarifyingQuestions (userIntakeNode ex now uuid st)
           = Some (fst (prepareClarifyingQuestions now uuid (clarifyingQuestions st)
                          (snd (applyAssumptionsIfRequested (mergedInputs ex st m)))
                          (fst (applyAssumptionsIfRequested (mergedInputs ex st m)))))"
    and "questionsAsked (userIntakeNode ex now uuid st)
           = snd (prepareClarifyingQuestions now uuid (clarifyingQuestions st)
                          (snd (applyAssumptionsIfRequested (mergedInputs ex st m)))
                          (fst (applyAssumptionsIfRequested (mergedInputs ex st m))))"
    and "needsUserIntervention (userIntakeNode ex now uuid st)
           \<longleftrightarrow> questionsAsked (userIntakeNode ex now uuid st) \<noteq> []"
  using assms by (simp_all add: userIntakeNode_def mergedInputs_def Let_def)

lemma intake_core:
  assumes latest: "getLatestHumanMessage (in_messages st) = Some m"
    and req: "didUserRequestAssumptions (msg_content m)"
  shows "\<exists>i' qs. ret_userInputs (userIntakeNode ex now uuid st) = Some i'
           \<and> ret_clarifyingQuestions (userIntakeNode ex now uuid st) = Some qs
           \<and> (\<forall>f. defaultable f \<and> needs f (mergedInputs ex st m) \<longrightarrow>
                  fieldValue f i' = Some (documentedDefault f (mergedInputs ex st m))
                  \<and> \<not> needs f i')
           \<and> (\<forall>f. \<not> (defaultable f \<and> needs f (mergedInputs ex st m)) \<longrightarrow>
                  fieldValue f i' = fieldValue f (mergedInputs ex st m))
           \<and> (\<forall>q \<in> set qs. defaultable (cq_field q) \<and> needs (cq_field q) (mergedInputs ex st m) \<longrightarrow>
                  cq_status q = assumed)"
    and "map cq_field (questionsAsked (userIntakeNode ex now uuid st))
           = (if needs F_description (mergedInputs ex st m) then [F_description] else [])"
    and "needsUserIntervention (userIntakeNode ex now uuid st)
           \<longleftrightarrow> needs F_description (mergedInputs ex st m)"
proof -
  let ?mi = "mergedInputs ex st m"
  let ?i = "snd (applyAssumptionsIfRequested ?mi)"
  let ?A = "fst (applyAssumptionsIfRequested ?mi)"
  let ?R = "userIntakeNode ex now uuid st"
  note u = intake_unfold [OF latest req, of ex now uuid]
  have settled: "\<forall>f \<in> set blueprintFields. f \<noteq> F_description \<longrightarrow> \<not> needs f ?i"
    by (simp add: after_needs)
  have assumedOk: "\<forall>f \<in> set ?A. defaultable f"
    by (simp add: assumed_fields)
  note p = prepare_after_assumptions [OF settled assumedOk, of now uuid "clarifyingQuestions st"]
  have nd: "needs F_description ?i = needs F_description ?mi"
    by (simp add: after_needs blueprintFields_def)
  have a: "\<forall>f. defaultable f \<and> needs f ?mi \<longrightarrow>
             fieldValue f ?i = Some (documentedDefault f ?mi) \<and> \<not> needs f ?i"
    by (simp add: after_values after_needs defaultable_def)
  have b: "\<forall>f. \<not> (defaultable f \<and> needs f ?mi) \<longrightarrow> fieldValue f ?i = fieldValue f ?mi"
    using after_values_kept by blast
  have c: "\<forall>q \<in> set (fst (prepareClarifyingQuestions now uuid (clarifyingQuestions st) ?i ?A)).
             defaultable (cq_field q) \<and> needs (cq_field q) ?mi \<longrightarrow> cq_status q = assumed"
    using p(2) by (simp add: assumed_fields)
  show "\<exists>i' qs. ret_userInputs ?R = Some i' \<and> ret_clarifyingQuestions ?R = Some qs
           \<and> (\<forall>f. defaultable f \<and> needs f ?mi \<longrightarrow>
                  fieldValue f i' = Some (documentedDefault f ?mi) \<and> \<not> needs f i')
           \<and> (\<forall>f. \<not> (defaultable f \<and> needs f ?mi) \<longrightarrow> fieldValue f i' = fieldValue f ?mi)
           \<and> (\<forall>q \<in> set qs. defaultable (cq_field q) \<and> needs (cq_field q) ?mi \<longrightarrow>
                  cq_status q = assumed)"
    using u(1,2) a b c by blast
  show asked: "map cq_field (questionsAsked ?R)
           = (if needs F_description ?mi then [F_description] else [])"
    using p(1) nd by (simp only: u(3))
  have "questionsAsked ?R \<noteq> [] \<longleftrightarrow> needs F_description ?mi"
    using asked by (cases "questionsAsked ?R") (auto split: if_splits)
  then show "needsUserIntervention ?R \<longleftrightarrow> needs F_description ?mi"
    by (simp only: u(4))
qed

lemma lower_scenarioD: "toLowerCase scenarioDMessage = scenarioDMessage"
  by (simp add: scenarioDMessage_def toLowerCase_def toLowerChar_def)

lemma scenarioD_requests: "didUserRequestAssumptions scenarioDMessage"
  unfolding didUserRequestAssumptions_def Let_def lower_scenarioD
  by (simp add: scenarioDMessage_def)

lemma scenarioD_latest:
  "getLatestHumanMessage (in_messages scenarioDState) = Some (humanMessage None scenarioDMessage)"
  "getLatestHumanMessage (in_messages timelineAskedState) = Some (humanMessage None scenarioDMessage)"
  by (simp_all add: scenarioDState_def timelineAskedState_def latest_single)

lemma scenarioD_merged:
  "mergedInputs (\<lambda>c. scenarioDExtracted) scenarioDState (humanMessage None scenarioDMessage)
     = scenarioDExtracted"
  "mergedInputs (\<lambda>c. noInputs) scenarioDState (humanMessage None scenarioDMessage) = noInputs"
  "mergedInputs (\<lambda>c. scenarioDExtracted) timelineAskedState (humanMessage None scenarioDMessage)
     = scenarioDExtracted"
  by (simp_all add: mergedInputs_def scenarioDState_def timelineAskedState_def mergeUserInputs_def
        takeTruthy_def mergeList_def scenarioDExtracted_def noInputs_def truthy_def
        scenarioDMessage_def)

lemma scenarioD_needs:
  "needs F_description scenarioDExtracted" "needs F_description noInputs"
  "needs F_timeline scenarioDExtracted"
  "\<not> defaultable F_description" "defaultable F_timeline"
  "fieldValue F_description scenarioDExtracted = None" "fieldValue F_description noInputs = None"
  by (simp_all add: needs_def scenarioDExtracted_def noInputs_def fieldValue_def truthy_def
        defaultable_def blueprintFields_def)

text \<open>
  C7, as the code has it. In Scenario D (no prior inputs, the message "you can assume the
  rest and proceed") the description still needs follow-up and has no default: after the
  turn it is still unset, and one clarifying question, on the description, is surfaced.
  This is so both for what the extractor finds in the message (a title) and if it found
  nothing.
\<close>

theorem scenarioD_asks_for_description:
  "didUserRequestAssumptions scenarioDMessage
   \<and> map cq_field (questionsAsked (userIntakeNode (\<lambda>c. scenarioDExtracted) sampleNow sampleUuid scenarioDState))
       = [F_description]
   \<and> needsUserIntervention (userIntakeNode (\<lambda>c. scenarioDExtracted) sampleNow sampleUuid scenarioDState)
   \<and> map_option description
         (ret_userInputs (userIntakeNode (\<lambda>c. scenarioDExtracted) sampleNow sampleUuid scenarioDState))
       = Some None
   \<and> map cq_field (questionsAsked (userIntakeNode (\<lambda>c. noInputs) sampleNow sampleUuid scenarioDState))
       = [F_description]"
proof -
  let ?m = "humanMessage None scenarioDMessage"
  have req: "didUserRequestAssumptions (msg_content ?m)"
    by (simp add: humanMessage_fields scenarioD_requests)
  note c1 = intake_core [OF scenarioD_latest(1) req, of "\<lambda>c. scenarioDExtracted" sampleNow sampleUuid]
  note c0 = intake_core [OF scenarioD_latest(1) req, of "\<lambda>c. noInputs" sampleNow sampleUuid]
  have a: "map cq_field (questionsAsked (userIntakeNode (\<lambda>c. scenarioDExtracted) sampleNow sampleUuid
             scenarioDState)) = [F_description]"
    using c1(2) by (simp add: scenarioD_merged scenarioD_needs)
  have b: "needsUserIntervention (userIntakeNode (\<lambda>c. scenarioDExtracted) sampleNow sampleUuid scenarioDState)"
    using c1(3) by (simp add: scenarioD_merged scenarioD_needs)
  obtain i' where i': "ret_userInputs (userIntakeNode (\<lambda>c. scenarioDExtracted) sampleNow sampleUuid
                          scenarioDState) = Some i'"
      "\<forall>f. \<not> (defaultable f \<and> needs f scenarioDExtracted) \<longrightarrow>
           fieldValue f i' = fieldValue f scenarioDExtracted"
    using c1(1) by (auto simp: scenarioD_merged)
  have "fieldValue F_description i' = None"
    using i'(2) scenarioD_needs by simp
  then have "description i' = None" by (simp add: fieldValue_def)
  then have c: "map_option description
         (ret_userInputs (userIntakeNode (\<lambda>c. scenarioDExtracted) sampleNow sampleUuid scenarioDState))
       = Some None"
    by (simp add: i'(1))
  have d: "map cq_field (questionsAsked (userIntakeNode (\<lambda>c. noInputs) sampleNow sampleUuid scenarioDState))
             = [F_description]"
    using c0(2) by (simp add: scenarioD_merged scenarioD_needs)
  show ?thesis using scenarioD_requests a b c d by simp
qed

text \<open>
  C7, amended. When the latest message asks to proceed on assumptions, every blueprint
  field other than the description that still needs follow-up after the merge receives
  its documented default and no longer needs follow-up; every other field keeps its
  merged value; a tracked question on a field that received a default is marked
  \<open>assumed\<close>. The description has no default: if it still needs follow-up, exactly one
  clarifying question, on the description, is surfaced that turn, and otherwise none.
  (The blueprint's \<open>followUpNeeded\<close> tests are the tests \<open>needs\<close>, field by field.)
\<close>

theorem assumption_injection:
  assumes "getLatestHumanMessage (in_messages st) = Some m"
    and "didUserRequestAssumptions (msg_content m)"
  shows "(\<forall>e \<in> set CLARITY_BLUEPRINT. followUpNeeded e = needs (bp_field e))
     \<and> (\<exists>i' qs. ret_userInputs (userIntakeNode ex now uuid st) = Some i'
           \<and> ret_clarifyingQuestions (userIntakeNode ex now uuid st) = Some qs
           \<and> (\<forall>f. defaultable f \<and> needs f (mergedInputs ex st m) \<longrightarrow>
                  fieldValue f i' = Some (documentedDefault f (mergedInputs ex st m))
                  \<and> \<not> needs f i')
           \<and> (\<forall>f. \<not> (defaultable f \<and> needs f (mergedInputs ex st m)) \<longrightarrow>
                  fieldValue f i' = fieldValue f (mergedInputs ex st m))
           \<and> (\<forall>q \<in> set qs. defaultable (cq_field q) \<and> needs (cq_field q) (mergedInputs ex st m) \<longrightarrow>
                  cq_status q = assumed))
     \<and> map cq_field (questionsAsked (userIntakeNode ex now uuid st))
           = (if needs F_description (mergedInputs ex st m) then [F_description] else [])
     \<and> (needsUserIntervention (userIntakeNode ex now uuid st)
           \<longleftrightarrow> needs F_description (mergedInputs ex st m))"
  using blueprint_needs intake_core [OF assms, of ex now uuid]
  by (intro conjI)

theorem assumption_injection_witness:
  "getLatestHumanMessage (in_messages timelineAskedState) = Some (humanMessage None scenarioDMessage)
   \<and> didUserRequestAssumptions (msg_content (humanMessage None scenarioDMessage))
   \<and> map cq_field (questionsAsked
          (userIntakeNode (\<lambda>c. scenarioDExtracted) sampleNow sampleUuid timelineAskedState))
       = [F_description]
   \<and> map_option (fieldValue F_timeline)
         (ret_userInputs
            (userIntakeNode (\<lambda>c. scenarioDExtracted) sampleNow sampleUuid timelineAskedState))
       = Some (Some [''Approximately 6'' @ [en_dash] @ ''12 months (assumed)''])
   \<and> map_option (list_all (\<lambda>q. cq_field q \<noteq> F_timeline \<or> cq_status q = assumed))
         (ret_clarifyingQuestions
            (userIntakeNode (\<lambda>c. scenarioDExtracted) sampleNow sampleUuid timelineAskedState))
       = Some True"
proof -
  let ?m = "humanMessage None scenarioDMessage"
  let ?R = "userIntakeNode (\<lambda>c. scenarioDExtracted) sampleNow sampleUuid timelineAskedState"
  have latest: "getLatestHumanMessage (in_messages timelineAskedState) = Some ?m"
    by (rule scenarioD_latest(2))
  have req: "didUserRequestAssumptions (msg_content ?m)"
    by (simp add: humanMessage_fields scenarioD_requests)
  note t = assumption_injection [OF latest req, of "\<lambda>c. scenarioDExtracted" sampleNow sampleUuid,
             unfolded scenarioD_merged]
  have asked: "map cq_field (questionsAsked ?R) = [F_description]"
    using t [THEN conjunct2, THEN conjunct2, THEN conjunct1] by (simp add: scenarioD_needs)
  obtain i' qs where r: "ret_userInputs ?R = Some i'" "ret_clarifyingQuestions ?R = Some qs"
      "\<forall>f. defaultable f \<and> needs f scenarioDExtracted \<longrightarrow>
           fieldValue f i' = Some (documentedDefault f scenarioDExtracted) \<and> \<not> needs f i'"
      "\<forall>q \<in> set qs. defaultable (cq_field q) \<and> needs (cq_field q) scenarioDExtracted \<longrightarrow>
           cq_status q = assumed"
    using t [THEN conjunct2, THEN conjunct1] by blast
  have tl: "fieldValue F_timeline i' = Some (documentedDefault F_timeline scenarioDExtracted)"
    using r(3) scenarioD_needs by blast
  have qs: "list_all (\<lambda>q. cq_field q \<noteq> F_timeline \<or> cq_status q = assumed) qs"
    using r(4) scenarioD_needs by (auto simp: list_all_iff)
  show ?thesis
    using latest req asked tl qs by (simp add: r(1,2) documentedDefault_def)
qed

end
